theory Spec2Isabelle
  imports Main "HOL-Library.Word"
begin

unbundle bit_operations_syntax

section \<open>The rule \<open>no-floating-error\<close> of eslint-plugin-checked-error\<close>

text \<open>
  The rule lives in \<^verbatim>\<open>src/rules/no-floating-error.mjs\<close>. It registers a listener for
  expression statements, extracts a bare (possibly awaited) call from the statement, asks
  the TypeScript type checker for the type of the call, and reports when that type may be
  \<^verbatim>\<open>Error\<close> or one of its subclasses.

  The type checker and the syntax tree are external objects. A type is a JavaScript object
  with identity (the \<^verbatim>\<open>Set\<close> of visited types compares by identity), so the model uses
  type handles \<open>'h\<close> and a store from handles to the fields the rule reads. TypeScript
  syntax nodes are the handles \<open>'n\<close>.
\<close>

subsection \<open>Flags of the \<^verbatim>\<open>typescript\<close> package\<close>

text \<open>
  \<^verbatim>\<open>ts.TypeFlags\<close> and \<^verbatim>\<open>ts.ObjectFlags\<close> are bit sets held in JavaScript numbers; the
  operator \<^verbatim>\<open>&\<close> works on their 32-bit integer value. The constants are those of the
  TypeScript compiler API (\<^verbatim>\<open>Any = 1 << 0\<close>, \<^verbatim>\<open>Unknown = 1 << 1\<close>, \<^verbatim>\<open>Never = 1 << 17\<close>,
  \<^verbatim>\<open>TypeParameter = 1 << 18\<close>, \<^verbatim>\<open>Object = 1 << 19\<close>, \<^verbatim>\<open>Union = 1 << 20\<close>,
  \<^verbatim>\<open>Intersection = 1 << 21\<close>; \<^verbatim>\<open>ClassOrInterface = Class | Interface = 1 | 2\<close>).
\<close>

definition TypeFlags_Any :: "32 word" where "TypeFlags_Any = 1"
definition TypeFlags_Unknown :: "32 word" where "TypeFlags_Unknown = 2"
definition TypeFlags_Never :: "32 word" where "TypeFlags_Never = 131072"
definition TypeFlags_TypeParameter :: "32 word" where "TypeFlags_TypeParameter = 262144"
definition TypeFlags_Object :: "32 word" where "TypeFlags_Object = 524288"
definition TypeFlags_Union :: "32 word" where "TypeFlags_Union = 1048576"
definition TypeFlags_Intersection :: "32 word" where "TypeFlags_Intersection = 2097152"

definition ObjectFlags_Class :: "32 word" where "ObjectFlags_Class = 1"
definition ObjectFlags_Interface :: "32 word" where "ObjectFlags_Interface = 2"
definition ObjectFlags_Reference :: "32 word" where "ObjectFlags_Reference = 4"
definition ObjectFlags_Anonymous :: "32 word" where "ObjectFlags_Anonymous = 16"
definition ObjectFlags_ClassOrInterface :: "32 word" where
  "ObjectFlags_ClassOrInterface = ObjectFlags_Class OR ObjectFlags_Interface"

text \<open>The condition \<^verbatim>\<open>if (x & F)\<close>: the conjunction of the bits is truthy when it is not 0.\<close>

definition truthy :: "32 word \<Rightarrow> bool" where
  "truthy w = (w \<noteq> 0)"

subsection \<open>Types and the type checker\<close>

text \<open>
  The fields of a \<^verbatim>\<open>ts.Type\<close> object that the rule reads: \<^verbatim>\<open>flags\<close>, \<^verbatim>\<open>objectFlags\<close>
  (read only after the \<^verbatim>\<open>Object\<close> flag was seen), \<^verbatim>\<open>types\<close> (the members of a union or an
  intersection) and the name of the symbol returned by \<^verbatim>\<open>getSymbol()\<close>, if there is one.
\<close>

record 'h tsType =
  flags :: "32 word"
  objectFlags :: "32 word"
  types :: "'h list"
  symbol :: "string option"

text \<open>\<^verbatim>\<open>type.isUnion()\<close> and \<^verbatim>\<open>type.isIntersection()\<close> test one flag each.\<close>

definition isUnion :: "'h tsType \<Rightarrow> bool" where
  "isUnion ty = truthy (flags ty AND TypeFlags_Union)"

definition isIntersection :: "'h tsType \<Rightarrow> bool" where
  "isIntersection ty = truthy (flags ty AND TypeFlags_Intersection)"

text \<open>
  The type checker as the rule uses it. \<open>typeAt\<close> is the store: it gives the object behind
  a type handle. \<open>checker_getAwaitedType\<close> and \<open>getPromisedTypeOfPromise\<close> are \<open>None\<close>
  when the checker has no function of that name (\<^verbatim>\<open>typeof ... === 'function'\<close> fails); the
  functions themselves, \<open>getBaseConstraintOfType\<close> and \<open>getBaseTypes\<close> may answer
  \<^verbatim>\<open>undefined\<close>, which is \<open>None\<close>.
\<close>

record ('n, 'h) checker =
  typeAt :: "'h \<Rightarrow> 'h tsType"
  checker_getAwaitedType :: "('h \<Rightarrow> 'h option) option"
  getPromisedTypeOfPromise :: "('h \<Rightarrow> 'h option) option"
  getBaseConstraintOfType :: "'h \<Rightarrow> 'h option"
  getApparentType :: "'h \<Rightarrow> 'h"
  getBaseTypes :: "'h \<Rightarrow> 'h list option"
  getTypeAtLocation :: "'n \<Rightarrow> 'h"

subsection \<open>\<^verbatim>\<open>getAwaitedType\<close>\<close>

definition getAwaitedType :: "('n, 'h) checker \<Rightarrow> 'h \<Rightarrow> 'h" where
  "getAwaitedType checker type =
     (case checker_getAwaitedType checker of
        Some getAwaited \<Rightarrow>
          (case getAwaited type of Some awaited \<Rightarrow> awaited | None \<Rightarrow> type)
      | None \<Rightarrow>
          (case getPromisedTypeOfPromise checker of
             Some getPromised \<Rightarrow>
               (case getPromised type of Some promised \<Rightarrow> promised | None \<Rightarrow> type)
           | None \<Rightarrow> type))"

subsection \<open>\<^verbatim>\<open>flattenTypes\<close>\<close>

text \<open>
  \<^verbatim>\<open>Array.prototype.flatMap\<close> over a callback that may not return: the results are
  concatenated in order, and the whole is \<open>None\<close> as soon as one call is.
\<close>

fun flatMap :: "('a \<Rightarrow> 'b list option) \<Rightarrow> 'a list \<Rightarrow> 'b list option" where
  "flatMap f [] = Some []"
| "flatMap f (x # xs) =
     Option.bind (f x) (\<lambda>ys. Option.bind (flatMap f xs) (\<lambda>zs. Some (ys @ zs)))"

lemma flatMap_mono [partial_function_mono]:
  assumes "\<And>x. mono_option (\<lambda>f. g f x)"
  shows "mono_option (\<lambda>f. flatMap (g f) xs)"
proof (induction xs)
  case Nil
  show ?case by (simp add: partial_function_mono)
next
  case (Cons x xs)
  show ?case
    unfolding flatMap.simps
    by (intro partial_function_mono assms Cons.IH)
qed

text \<open>
  \<^verbatim>\<open>flattenTypes\<close> recurses through the members of unions and intersections and through
  the constraint of a type parameter. Nothing in the code bounds that recursion, so the
  model is a partial function: \<open>None\<close> is a call that does not return.
\<close>

partial_function (option) flattenTypes :: "('n, 'h) checker \<Rightarrow> 'h \<Rightarrow> 'h list option" where
  "flattenTypes checker type =
     (if isUnion (typeAt checker type)
        then flatMap (flattenTypes checker) (types (typeAt checker type))
      else if isIntersection (typeAt checker type)
        then flatMap (flattenTypes checker) (types (typeAt checker type))
      else if truthy (flags (typeAt checker type) AND TypeFlags_TypeParameter)
        then (case getBaseConstraintOfType checker type of
                Some constraint \<Rightarrow> flattenTypes checker constraint
              | None \<Rightarrow> Some [type])
      else Some [type])"

subsection \<open>\<^verbatim>\<open>isErrorInterfaceOrBase\<close>\<close>

text \<open>
  The depth-first walk through the base types. \<open>seen\<close> is the \<^verbatim>\<open>Set\<close> the caller passes;
  the walk adds to it in place, so the model returns it. \<open>log\<close> is not in the code: it
  records, in order, each type that gets past the \<^verbatim>\<open>seen.has(type)\<close> test and has its
  symbol read, so that one can count how often a type is inspected. The loop over
  \<^verbatim>\<open>bases\<close> is the second function. Type handles are objects of a running program, so
  there are finitely many of them (\<open>'h :: finite\<close>), which is what the walk's
  termination rests on.
\<close>

function isErrorInterfaceOrBase ::
    "('n, 'h::finite) checker \<Rightarrow> 'h \<Rightarrow> 'h set \<Rightarrow> 'h list \<Rightarrow> bool \<times> 'h set \<times> 'h list"
  and isErrorInterfaceOrBase_bases ::
    "('n, 'h) checker \<Rightarrow> 'h list \<Rightarrow> 'h set \<Rightarrow> 'h list \<Rightarrow> bool \<times> 'h set \<times> 'h list"
where
  "isErrorInterfaceOrBase checker type seen log =
     (if type \<in> seen then (False, seen, log)
      else if symbol (typeAt checker type) = Some ''Error''
        then (True, insert type seen, log @ [type])
      else if truthy (flags (typeAt checker type) AND TypeFlags_Object)
            \<and> truthy (objectFlags (typeAt checker type) AND ObjectFlags_ClassOrInterface)
        then isErrorInterfaceOrBase_bases checker
               (case getBaseTypes checker type of Some bases \<Rightarrow> bases | None \<Rightarrow> [])
               (insert type seen) (log @ [type])
      else (False, insert type seen, log @ [type]))"
| "isErrorInterfaceOrBase_bases checker [] seen log = (False, seen, log)"
| "isErrorInterfaceOrBase_bases checker (b # bases) seen log =
     (let (found, seen', log') = isErrorInterfaceOrBase checker b seen log
      in if found then (True, seen', log')
         else isErrorInterfaceOrBase_bases checker bases seen' log')"
  by pat_completeness auto

text \<open>
  The recursion is nested: the loop goes on with the set the inner call returns. Where the
  walk is defined that set has only grown, which is what the measure needs.
\<close>

lemma seen_grows_dom:
  "isErrorInterfaceOrBase_isErrorInterfaceOrBase_bases_dom (Inl (checker, type, seen, log)) \<Longrightarrow>
     seen \<subseteq> fst (snd (isErrorInterfaceOrBase checker type seen log))"
  "isErrorInterfaceOrBase_isErrorInterfaceOrBase_bases_dom (Inr (checker, bases, seen, log)) \<Longrightarrow>
     seen \<subseteq> fst (snd (isErrorInterfaceOrBase_bases checker bases seen log))"
proof (induction checker type seen log and checker bases seen log
    rule: isErrorInterfaceOrBase_isErrorInterfaceOrBase_bases.pinduct)
  case (1 checker type seen log)
  then show ?case
    by (auto simp: isErrorInterfaceOrBase.psimps)
next
  case (2 checker seen log)
  then show ?case by (simp add: isErrorInterfaceOrBase_bases.psimps)
next
  case (3 checker b bases seen log)
  obtain found seen' log'
    where r: "isErrorInterfaceOrBase checker b seen log = (found, seen', log')"
    by (cases "isErrorInterfaceOrBase checker b seen log") auto
  have a: "seen \<subseteq> seen'" using 3(2) r by simp
  show ?case
  proof (cases found)
    case True
    then show ?thesis using a r 3(1) by (simp add: isErrorInterfaceOrBase_bases.psimps)
  next
    case False
    have "seen' \<subseteq> fst (snd (isErrorInterfaceOrBase_bases checker bases seen' log'))"
      using 3(3)[OF r[symmetric] refl refl False] .
    then show ?thesis
      using a r False 3(1) by (auto simp: isErrorInterfaceOrBase_bases.psimps)
  qed
qed

termination isErrorInterfaceOrBase
proof (relation "measures
    [\<lambda>x. case x of Inl (c, t, seen, log) \<Rightarrow> card (- seen)
               | Inr (c, bs, seen, log) \<Rightarrow> card (- seen),
     \<lambda>x. case x of Inl (c, t, seen, log) \<Rightarrow> 0
               | Inr (c, bs, seen, log) \<Rightarrow> Suc (length bs)]",
    goal_cases)
  case 1
  show ?case by simp
next
  case (2 checker type seen log)
  have "card (- insert type seen) < card (- seen)"
    using 2(1) by (intro psubset_card_mono) auto
  then show ?case by simp
next
  case (3 checker b bases seen log)
  show ?case by simp
next
  case (4 checker b bases seen log r found rest seen' log')
  have "isErrorInterfaceOrBase checker b seen log = (found, seen', log')"
    using 4 by simp
  moreover have
    "isErrorInterfaceOrBase_isErrorInterfaceOrBase_bases_dom (Inl (checker, b, seen, log))"
    using 4 by simp
  ultimately have "seen \<subseteq> seen'"
    using seen_grows_dom(1)[of checker b seen log] by simp
  then have "card (- seen') \<le> card (- seen)"
    by (intro card_mono) auto
  then show ?case by auto
qed

subsection \<open>\<^verbatim>\<open>isErrorOrSubclass\<close>\<close>

text \<open>
  The loop over the flattened parts. Each part that is not \<^verbatim>\<open>any\<close>, \<^verbatim>\<open>unknown\<close> or
  \<^verbatim>\<open>never\<close> is walked from its apparent type with a \<^verbatim>\<open>new Set()\<close>; the log of inspected
  types runs on through the whole call.
\<close>

fun isErrorOrSubclass_parts ::
    "('n, 'h::finite) checker \<Rightarrow> 'h list \<Rightarrow> 'h list \<Rightarrow> bool \<times> 'h list" where
  "isErrorOrSubclass_parts checker [] log = (False, log)"
| "isErrorOrSubclass_parts checker (t # parts) log =
     (if truthy (flags (typeAt checker t) AND TypeFlags_Any)
        then isErrorOrSubclass_parts checker parts log
      else if truthy (flags (typeAt checker t) AND TypeFlags_Unknown)
        then isErrorOrSubclass_parts checker parts log
      else if truthy (flags (typeAt checker t) AND TypeFlags_Never)
        then isErrorOrSubclass_parts checker parts log
      else
        (let apparent = getApparentType checker t;
             (found, seen, log') = isErrorInterfaceOrBase checker apparent {} log
         in if found then (True, log')
            else isErrorOrSubclass_parts checker parts log'))"

text \<open>
  \<open>isErrorOrSubclass_run\<close> is the call with its log of inspected types;
  \<open>isErrorOrSubclass\<close> is the boolean the code returns. Both are \<open>None\<close> when
  \<^verbatim>\<open>flattenTypes\<close> does not return.
\<close>

definition isErrorOrSubclass_run ::
    "('n, 'h::finite) checker \<Rightarrow> 'h \<Rightarrow> (bool \<times> 'h list) option" where
  "isErrorOrSubclass_run checker type =
     Option.bind (flattenTypes checker type)
       (\<lambda>parts. Some (isErrorOrSubclass_parts checker parts []))"

definition isErrorOrSubclass :: "('n, 'h::finite) checker \<Rightarrow> 'h \<Rightarrow> bool option" where
  "isErrorOrSubclass checker type = map_option fst (isErrorOrSubclass_run checker type)"

subsection \<open>The syntax tree\<close>

text \<open>
  The expression and statement nodes of the ESTree the rule is given. A call carries its
  source range, which tells two calls of the same text apart. The parser drops
  parentheses, so there is no node for them.
\<close>

datatype expression =
    CallExpression "nat \<times> nat" expression "expression list"
  | AwaitExpression "expression option"
  | Identifier string
  | Literal string
  | MemberExpression expression string
  | ConditionalExpression expression expression expression
  | SequenceExpression "expression list"
  | AssignmentExpression expression expression
  | ChainExpression expression
  | NewExpression expression "expression list"
  | UnaryExpression string expression
  | TSAsExpression expression
  | TSNonNullExpression expression

text \<open>The field \<^verbatim>\<open>type\<close> of an expression node.\<close>

fun expression_type :: "expression \<Rightarrow> string" where
  "expression_type (CallExpression r f args) = ''CallExpression''"
| "expression_type (AwaitExpression a) = ''AwaitExpression''"
| "expression_type (Identifier x) = ''Identifier''"
| "expression_type (Literal v) = ''Literal''"
| "expression_type (MemberExpression obj p) = ''MemberExpression''"
| "expression_type (ConditionalExpression c a b) = ''ConditionalExpression''"
| "expression_type (SequenceExpression es) = ''SequenceExpression''"
| "expression_type (AssignmentExpression l r) = ''AssignmentExpression''"
| "expression_type (ChainExpression e) = ''ChainExpression''"
| "expression_type (NewExpression f args) = ''NewExpression''"
| "expression_type (UnaryExpression opr e) = ''UnaryExpression''"
| "expression_type (TSAsExpression e) = ''TSAsExpression''"
| "expression_type (TSNonNullExpression e) = ''TSNonNullExpression''"

text \<open>
  The field \<^verbatim>\<open>argument\<close>, read by the code only on an \<^verbatim>\<open>AwaitExpression\<close>; the code
  tests it for being there although the parser always fills it.
\<close>

fun argument :: "expression \<Rightarrow> expression option" where
  "argument (AwaitExpression a) = a"
| "argument (UnaryExpression opr e) = Some e"
| "argument e = None"

datatype statement =
    ExpressionStatement (expression: expression)
  | VariableDeclaration string "expression option"
  | ReturnStatement "expression option"
  | ThrowStatement expression
  | IfStatement expression
  | BlockStatement

subsection \<open>\<^verbatim>\<open>getStandaloneCall\<close>\<close>

record extracted =
  call :: expression
  isAwait :: bool

definition getStandaloneCall :: "expression \<Rightarrow> extracted option" where
  "getStandaloneCall expr =
     (if expression_type expr = ''CallExpression''
        then Some \<lparr>call = expr, isAwait = False\<rparr>
      else if expression_type expr = ''AwaitExpression''
        then (case argument expr of
                Some a \<Rightarrow>
                  if expression_type a = ''CallExpression''
                    then Some \<lparr>call = a, isAwait = True\<rparr>
                  else None
              | None \<Rightarrow> None)
      else None)"

subsection \<open>The rule\<close>

text \<open>
  The parser services: the map from ESTree nodes to TypeScript nodes and the program's
  type checker.
\<close>

record ('n, 'h) services =
  esTreeNodeToTSNodeMap :: "expression \<Rightarrow> 'n"
  getTypeChecker :: "('n, 'h) checker"

text \<open>A call of \<^verbatim>\<open>context.report\<close>: the node and the message id.\<close>

record diagnostic =
  node :: statement
  messageId :: string

text \<open>
  The listener \<^verbatim>\<open>ExpressionStatement(node)\<close>. \<^verbatim>\<open>context.report\<close> appends to the
  diagnostics the host has collected, so the listener takes them and returns them. It is
  \<open>None\<close> when \<^verbatim>\<open>isErrorOrSubclass\<close> does not return.
\<close>

definition ExpressionStatement_listener ::
    "('n, 'h::finite) services \<Rightarrow> statement \<Rightarrow> diagnostic list \<Rightarrow> diagnostic list option" where
  "ExpressionStatement_listener services nd reports =
     (let checker = getTypeChecker services in
      case getStandaloneCall (expression nd) of
        None \<Rightarrow> Some reports
      | Some extracted \<Rightarrow>
          (let tsCall = esTreeNodeToTSNodeMap services (call extracted);
               returnType = getTypeAtLocation checker tsCall;
               returnType = (if isAwait extracted then getAwaitedType checker returnType
                             else returnType)
           in case isErrorOrSubclass checker returnType of
                None \<Rightarrow> None
              | Some False \<Rightarrow> Some reports
              | Some True \<Rightarrow>
                  Some (reports @ [\<lparr>node = nd, messageId = ''requireErrorCheck''\<rparr>])))"

text \<open>
  \<^verbatim>\<open>create(context)\<close> returns an object with the one listener, under the key
  \<^verbatim>\<open>ExpressionStatement\<close>; \<open>listeners\<close> is that object, a map from node types to
  listeners.
\<close>

type_synonym listeners = "string \<rightharpoonup> (statement \<Rightarrow> diagnostic list \<Rightarrow> diagnostic list option)"

definition create :: "('n, 'h::finite) services \<Rightarrow> listeners" where
  "create services = [''ExpressionStatement'' \<mapsto> ExpressionStatement_listener services]"

subsection \<open>The host\<close>

text \<open>
  ESLint is not part of the plugin. What the rule relies on: while ESLint walks the syntax
  tree of a file it calls, for each node, the listener registered under the node's type,
  if there is one. A file is given here by the statement nodes in the order of the walk.
\<close>

fun statement_type :: "statement \<Rightarrow> string" where
  "statement_type (ExpressionStatement e) = ''ExpressionStatement''"
| "statement_type (VariableDeclaration x e) = ''VariableDeclaration''"
| "statement_type (ReturnStatement e) = ''ReturnStatement''"
| "statement_type (ThrowStatement e) = ''ThrowStatement''"
| "statement_type (IfStatement e) = ''IfStatement''"
| "statement_type BlockStatement = ''BlockStatement''"

definition visit :: "listeners \<Rightarrow> statement \<Rightarrow> diagnostic list \<Rightarrow> diagnostic list option" where
  "visit ls nd reports =
     (case ls (statement_type nd) of
        None \<Rightarrow> Some reports
      | Some listener \<Rightarrow> listener nd reports)"

fun traverse :: "listeners \<Rightarrow> statement list \<Rightarrow> diagnostic list \<Rightarrow> diagnostic list option" where
  "traverse ls [] reports = Some reports"
| "traverse ls (nd # nodes) reports =
     (case visit ls nd reports of
        None \<Rightarrow> None
      | Some reports' \<Rightarrow> traverse ls nodes reports')"

definition lintFile :: "('n, 'h::finite) services \<Rightarrow> statement list \<Rightarrow> diagnostic list option" where
  "lintFile services nodes = traverse (create services) nodes []"

subsection \<open>The resolver of the specification\<close>

text \<open>
  The specification names the type the listener hands to the matcher
  \<open>resolveResultType(call, isAwaited)\<close>; in the code it is the value of \<^verbatim>\<open>returnType\<close>
  after the \<^verbatim>\<open>if (extracted.isAwait)\<close>.
\<close>

definition resolveResultType :: "('n, 'h) services \<Rightarrow> extracted \<Rightarrow> 'h" where
  "resolveResultType services ex =
     (let checker = getTypeChecker services;
          returnType = getTypeAtLocation checker (esTreeNodeToTSNodeMap services (call ex))
      in if isAwait ex then getAwaitedType checker returnType else returnType)"

text \<open>The diagnostic the rule reports at a statement.\<close>

definition requireErrorCheck :: "statement \<Rightarrow> diagnostic" where
  "requireErrorCheck nd = \<lparr>node = nd, messageId = ''requireErrorCheck''\<rparr>"

text \<open>
  The decision of the specification for a statement the host visits: classify, resolve,
  match. It is \<open>Some True\<close> when the statement is to be reported, \<open>Some False\<close> when it
  is not, and \<open>None\<close> when the matcher does not return.
\<close>

definition spec_report :: "('n, 'h::finite) services \<Rightarrow> statement \<Rightarrow> bool option" where
  "spec_report services nd =
     (case nd of
        ExpressionStatement expr \<Rightarrow>
          (case getStandaloneCall expr of
             None \<Rightarrow> Some False
           | Some ex \<Rightarrow> isErrorOrSubclass (getTypeChecker services) (resolveResultType services ex))
      | _ \<Rightarrow> Some False)"

subsection \<open>Notions used in the statements\<close>

text \<open>
  The three tests of the walk, by name: the symbol of the type is called \<^verbatim>\<open>Error\<close>; the
  type is an object type flagged as class or interface; its base types
  (\<^verbatim>\<open>checker.getBaseTypes(iface) ?? []\<close>).
\<close>

definition namedError :: "('n, 'h) checker \<Rightarrow> 'h \<Rightarrow> bool" where
  "namedError checker t = (symbol (typeAt checker t) = Some ''Error'')"

definition classOrInterface :: "('n, 'h) checker \<Rightarrow> 'h \<Rightarrow> bool" where
  "classOrInterface checker t =
     (truthy (flags (typeAt checker t) AND TypeFlags_Object)
      \<and> truthy (objectFlags (typeAt checker t) AND ObjectFlags_ClassOrInterface))"

definition basesOf :: "('n, 'h) checker \<Rightarrow> 'h \<Rightarrow> 'h list" where
  "basesOf checker t = (case getBaseTypes checker t of Some bases \<Rightarrow> bases | None \<Rightarrow> [])"

text \<open>
  A declared base-type chain: a non-empty list of types in which each type but the last is
  a class or an interface and has the next one among its base types.
\<close>

fun baseChain :: "('n, 'h) checker \<Rightarrow> 'h list \<Rightarrow> bool" where
  "baseChain checker [] = False"
| "baseChain checker [t] = True"
| "baseChain checker (t # b # rest) =
     (classOrInterface checker t \<and> b \<in> set (basesOf checker t) \<and> baseChain checker (b # rest))"

text \<open>A part that the loop of \<^verbatim>\<open>isErrorOrSubclass\<close> skips: \<^verbatim>\<open>any\<close>, \<^verbatim>\<open>unknown\<close> or \<^verbatim>\<open>never\<close>.\<close>

definition discarded :: "('n, 'h) checker \<Rightarrow> 'h \<Rightarrow> bool" where
  "discarded checker t =
     (truthy (flags (typeAt checker t) AND TypeFlags_Any)
      \<or> truthy (flags (typeAt checker t) AND TypeFlags_Unknown)
      \<or> truthy (flags (typeAt checker t) AND TypeFlags_Never))"

text \<open>A type that \<^verbatim>\<open>flattenTypes\<close> returns as it is.\<close>

definition leaf :: "('n, 'h) checker \<Rightarrow> 'h \<Rightarrow> bool" where
  "leaf checker t =
     (\<not> isUnion (typeAt checker t) \<and> \<not> isIntersection (typeAt checker t)
      \<and> \<not> truthy (flags (typeAt checker t) AND TypeFlags_TypeParameter))"

text \<open>
  A type that reaches the type-parameter test of \<^verbatim>\<open>flattenTypes\<close> and passes it.
\<close>

definition isTypeParameter :: "('n, 'h) checker \<Rightarrow> 'h \<Rightarrow> bool" where
  "isTypeParameter checker t =
     (\<not> isUnion (typeAt checker t) \<and> \<not> isIntersection (typeAt checker t)
      \<and> truthy (flags (typeAt checker t) AND TypeFlags_TypeParameter))"

text \<open>
  What flattening is to yield, read off the shape of the type: the parts of a union or an
  intersection are the parts of its members, in order; the parts of a type parameter with
  a constraint are those of the constraint; a type parameter without a constraint and any
  other type are their own single part. \<open>flattensTo checker t parts\<close> holds when the
  nesting of unions, intersections and constraints under \<open>t\<close> is finite and \<open>parts\<close> is
  what it comes to. Base types play no role in it.
\<close>

inductive flattensTo :: "('n, 'h) checker \<Rightarrow> 'h \<Rightarrow> 'h list \<Rightarrow> bool"
  and flattensAllTo :: "('n, 'h) checker \<Rightarrow> 'h list \<Rightarrow> 'h list \<Rightarrow> bool"
where
  union: "isUnion (typeAt checker t) \<Longrightarrow> flattensAllTo checker (types (typeAt checker t)) parts
            \<Longrightarrow> flattensTo checker t parts"
| intersection: "\<not> isUnion (typeAt checker t) \<Longrightarrow> isIntersection (typeAt checker t)
            \<Longrightarrow> flattensAllTo checker (types (typeAt checker t)) parts
            \<Longrightarrow> flattensTo checker t parts"
| constrained: "isTypeParameter checker t
            \<Longrightarrow> getBaseConstraintOfType checker t = Some constraint
            \<Longrightarrow> flattensTo checker constraint parts
            \<Longrightarrow> flattensTo checker t parts"
| unconstrained: "isTypeParameter checker t
            \<Longrightarrow> getBaseConstraintOfType checker t = None
            \<Longrightarrow> flattensTo checker t [t]"
| other: "leaf checker t \<Longrightarrow> flattensTo checker t [t]"
| none: "flattensAllTo checker [] []"
| member: "flattensTo checker t parts \<Longrightarrow> flattensAllTo checker ts parts'
            \<Longrightarrow> flattensAllTo checker (t # ts) (parts @ parts')"

code_pred flattensTo .

text \<open>
  A part as the glossary of the specification has it, with the one difference the code
  makes: not a union, not an intersection, and a type parameter only if it has no
  constraint.
\<close>

definition flatPart :: "('n, 'h) checker \<Rightarrow> 'h \<Rightarrow> bool" where
  "flatPart checker p =
     (\<not> isUnion (typeAt checker p) \<and> \<not> isIntersection (typeAt checker p)
      \<and> (truthy (flags (typeAt checker p) AND TypeFlags_TypeParameter)
             \<longrightarrow> getBaseConstraintOfType checker p = None))"

text \<open>The walk of one part: from its apparent type, with a new set.\<close>

definition walkPart :: "('n, 'h::finite) checker \<Rightarrow> 'h \<Rightarrow> bool" where
  "walkPart checker t = fst (isErrorInterfaceOrBase checker (getApparentType checker t) {} [])"

subsection \<open>A program to try the rule on\<close>

text \<open>
  The types of a small TypeScript program:
  \<^verbatim>\<open>
  class MyError extends Error {}
  class Base {}  class A extends Base {}  class B extends Base {}
  class GenErr<X> extends Error {}
  interface Coded { code: number }
  declare function f(): Error | true;
  declare function g(): Promise<Error | string>;
  declare function h(): MyError | null;
  declare function k(): unknown;
  declare function m(): A | B;
  declare function r(): GenErr<string>;
  declare function n(): Error;
  declare function c(): (Error & Coded) | null;
  function outer<T, E extends MyError>(
      p: () => T, q: () => E, u: () => T | null, v: () => E | null) {
    p(); q(); u(); v();
  }
  \<close>
  \<open>TParam\<close> is the \<^verbatim>\<open>T\<close> of \<^verbatim>\<open>outer\<close> and \<open>TParamMyError\<close> its \<^verbatim>\<open>E\<close>; inside \<^verbatim>\<open>outer\<close> the
  calls of \<^verbatim>\<open>p\<close>, \<^verbatim>\<open>q\<close>, \<^verbatim>\<open>u\<close> and \<^verbatim>\<open>v\<close> have the types \<^verbatim>\<open>T\<close>, \<^verbatim>\<open>E\<close>, \<^verbatim>\<open>T | null\<close> and
  \<^verbatim>\<open>E | null\<close>. \<open>TGenErr\<close> is the instantiation \<^verbatim>\<open>GenErr<string>\<close>, \<open>TPromise\<close> is
  \<^verbatim>\<open>Promise<Error | string>\<close> and \<open>TErrorAndCoded\<close> is \<^verbatim>\<open>Error & Coded\<close>.

  \<open>TI1\<close> and \<open>TI2\<close> belong to no program: they are two interface types that name each
  other as base type. The compiler breaks such a cycle before it answers
  \<^verbatim>\<open>getBaseTypes\<close>; a checker that did not would hand the rule this graph, and it is here
  to try the set of visited types on.
\<close>

datatype ty =
    TError | TMyError | TNull | TTrue | TString | TUnknown | TAny | TNever
  | TErrorOrTrue | TMyErrorOrNull | TErrorOrString | TPromise
  | TParam | TParamMyError | TParamOrNull | TParamMyErrorOrNull | TBase | TA | TB | TAorB
  | TGenErr | TCoded | TErrorAndCoded | TCodedErrorOrNull | TI1 | TI2

instantiation ty :: finite
begin
instance
proof
  have "(UNIV :: ty set) \<subseteq>
      {TError, TMyError, TNull, TTrue, TString, TUnknown, TAny, TNever,
       TErrorOrTrue, TMyErrorOrNull, TErrorOrString, TPromise,
       TParam, TParamMyError, TParamOrNull, TParamMyErrorOrNull, TBase, TA, TB, TAorB,
       TGenErr, TCoded, TErrorAndCoded, TCodedErrorOrNull, TI1, TI2}"
  proof
    fix x :: ty
    show "x \<in> {TError, TMyError, TNull, TTrue, TString, TUnknown, TAny, TNever,
       TErrorOrTrue, TMyErrorOrNull, TErrorOrString, TPromise,
       TParam, TParamMyError, TParamOrNull, TParamMyErrorOrNull, TBase, TA, TB, TAorB,
       TGenErr, TCoded, TErrorAndCoded, TCodedErrorOrNull, TI1, TI2}"
      by (cases x) simp_all
  qed
  then show "finite (UNIV :: ty set)" by (rule finite_subset) simp
qed
end

definition objectType :: "32 word \<Rightarrow> string \<Rightarrow> ty tsType" where
  "objectType oflags name =
     \<lparr>flags = TypeFlags_Object, objectFlags = oflags, types = [], symbol = Some name\<rparr>"

definition intrinsicType :: "32 word \<Rightarrow> ty tsType" where
  "intrinsicType fl = \<lparr>flags = fl, objectFlags = 0, types = [], symbol = None\<rparr>"

definition unionType :: "ty list \<Rightarrow> ty tsType" where
  "unionType ts = \<lparr>flags = TypeFlags_Union, objectFlags = 0, types = ts, symbol = None\<rparr>"

definition intersectionType :: "ty list \<Rightarrow> ty tsType" where
  "intersectionType ts =
     \<lparr>flags = TypeFlags_Intersection, objectFlags = 0, types = ts, symbol = None\<rparr>"

definition typeParameter :: "string \<Rightarrow> ty tsType" where
  "typeParameter name =
     \<lparr>flags = TypeFlags_TypeParameter, objectFlags = 0, types = [], symbol = Some name\<rparr>"

fun demo_typeAt :: "ty \<Rightarrow> ty tsType" where
  "demo_typeAt TError = objectType ObjectFlags_Interface ''Error''"
| "demo_typeAt TMyError = objectType ObjectFlags_Class ''MyError''"
| "demo_typeAt TNull = intrinsicType 65536"
| "demo_typeAt TTrue = intrinsicType 512"
| "demo_typeAt TString = intrinsicType 4"
| "demo_typeAt TUnknown = intrinsicType TypeFlags_Unknown"
| "demo_typeAt TAny = intrinsicType TypeFlags_Any"
| "demo_typeAt TNever = intrinsicType TypeFlags_Never"
| "demo_typeAt TErrorOrTrue = unionType [TError, TTrue]"
| "demo_typeAt TMyErrorOrNull = unionType [TNull, TMyError]"
| "demo_typeAt TErrorOrString = unionType [TString, TError]"
| "demo_typeAt TPromise = objectType ObjectFlags_Reference ''Promise''"
| "demo_typeAt TParam = typeParameter ''T''"
| "demo_typeAt TParamMyError = typeParameter ''E''"
| "demo_typeAt TParamMyErrorOrNull = unionType [TParamMyError, TNull]"
| "demo_typeAt TCoded = objectType ObjectFlags_Interface ''Coded''"
| "demo_typeAt TErrorAndCoded = intersectionType [TError, TCoded]"
| "demo_typeAt TCodedErrorOrNull = unionType [TNull, TErrorAndCoded]"
| "demo_typeAt TParamOrNull = unionType [TParam, TNull]"
| "demo_typeAt TBase = objectType ObjectFlags_Class ''Base''"
| "demo_typeAt TA = objectType ObjectFlags_Class ''A''"
| "demo_typeAt TB = objectType ObjectFlags_Class ''B''"
| "demo_typeAt TAorB = unionType [TA, TB]"
| "demo_typeAt TGenErr = objectType ObjectFlags_Reference ''GenErr''"
| "demo_typeAt TI1 = objectType ObjectFlags_Interface ''I1''"
| "demo_typeAt TI2 = objectType ObjectFlags_Interface ''I2''"

fun demo_bases :: "ty \<Rightarrow> ty list option" where
  "demo_bases TMyError = Some [TError]"
| "demo_bases TA = Some [TBase]"
| "demo_bases TB = Some [TBase]"
| "demo_bases TGenErr = Some [TError]"
| "demo_bases TI1 = Some [TI2]"
| "demo_bases TI2 = Some [TI1]"
| "demo_bases t = Some []"

fun demo_constraint :: "ty \<Rightarrow> ty option" where
  "demo_constraint TParamMyError = Some TMyError"
| "demo_constraint t = None"

fun demo_apparent :: "ty \<Rightarrow> ty" where
  "demo_apparent TParam = TUnknown"
| "demo_apparent TParamMyError = TMyError"
| "demo_apparent t = t"

fun demo_awaited :: "ty \<Rightarrow> ty option" where
  "demo_awaited TPromise = Some TErrorOrString"
| "demo_awaited t = Some t"

fun demo_promised :: "ty \<Rightarrow> ty option" where
  "demo_promised TPromise = Some TErrorOrString"
| "demo_promised t = None"

text \<open>The type of a call is decided by the name of the function called.\<close>

fun demo_typeOfCall :: "expression \<Rightarrow> ty" where
  "demo_typeOfCall (CallExpression r (Identifier name) args) =
     (if name = ''f'' then TErrorOrTrue
      else if name = ''g'' then TPromise
      else if name = ''h'' then TMyErrorOrNull
      else if name = ''k'' then TUnknown
      else if name = ''m'' then TAorB
      else if name = ''p'' then TParam
      else if name = ''q'' then TParamMyError
      else if name = ''r'' then TGenErr
      else if name = ''n'' then TError
      else if name = ''u'' then TParamOrNull
      else if name = ''v'' then TParamMyErrorOrNull
      else if name = ''c'' then TCodedErrorOrNull
      else TAny)"
| "demo_typeOfCall e = TAny"

definition demo_checker :: "(expression, ty) checker" where
  "demo_checker =
     \<lparr>typeAt = demo_typeAt, checker_getAwaitedType = Some demo_awaited,
      getPromisedTypeOfPromise = Some demo_promised,
      getBaseConstraintOfType = demo_constraint, getApparentType = demo_apparent,
      getBaseTypes = demo_bases, getTypeAtLocation = demo_typeOfCall\<rparr>"

definition demo_services :: "(expression, ty) services" where
  "demo_services = \<lparr>esTreeNodeToTSNodeMap = (\<lambda>e. e), getTypeChecker = demo_checker\<rparr>"

text \<open>The call \<^verbatim>\<open>name()\<close> at a source range.\<close>

definition callOf :: "string \<Rightarrow> nat \<times> nat \<Rightarrow> expression" where
  "callOf name r = CallExpression r (Identifier name) []"

text \<open>
  The statements of a file:
  \<^verbatim>\<open>f(); const r = f(); return f(); throw f(); x = f(); await g(); k();\<close>
\<close>

definition demo_file :: "statement list" where
  "demo_file =
     [ExpressionStatement (callOf ''f'' (0, 3)),
      VariableDeclaration ''r'' (Some (callOf ''f'' (15, 18))),
      ReturnStatement (Some (callOf ''f'' (27, 30))),
      ThrowStatement (callOf ''f'' (38, 41)),
      ExpressionStatement (AssignmentExpression (Identifier ''x'') (callOf ''f'' (47, 50))),
      ExpressionStatement (AwaitExpression (Some (callOf ''g'' (58, 61)))),
      ExpressionStatement (callOf ''k'' (63, 66))]"

text \<open>
  The same program under a checker without \<^verbatim>\<open>getAwaitedType\<close>, and under one that has
  neither \<^verbatim>\<open>getAwaitedType\<close> nor \<^verbatim>\<open>getPromisedTypeOfPromise\<close>.
\<close>

definition demo_promised_only :: "(expression, ty) services" where
  "demo_promised_only =
     demo_services\<lparr>getTypeChecker := demo_checker\<lparr>checker_getAwaitedType := None\<rparr>\<rparr>"

definition demo_no_unwrap :: "(expression, ty) services" where
  "demo_no_unwrap =
     demo_services\<lparr>getTypeChecker :=
       demo_checker\<lparr>checker_getAwaitedType := None, getPromisedTypeOfPromise := None\<rparr>\<rparr>"

section \<open>Properties\<close>

declare isErrorInterfaceOrBase.simps [simp del]

lemmas flag_defs =
  TypeFlags_Any_def TypeFlags_Unknown_def TypeFlags_Never_def TypeFlags_TypeParameter_def
  TypeFlags_Object_def TypeFlags_Union_def TypeFlags_Intersection_def ObjectFlags_Class_def
  ObjectFlags_Interface_def ObjectFlags_Reference_def ObjectFlags_Anonymous_def
  ObjectFlags_ClassOrInterface_def truthy_def isUnion_def isIntersection_def

lemmas demo_defs =
  demo_services_def demo_checker_def objectType_def intrinsicType_def unionType_def
  intersectionType_def typeParameter_def callOf_def

subsection \<open>The walk\<close>

lemma walk_step:
  "isErrorInterfaceOrBase checker t seen log =
     (if t \<in> seen then (False, seen, log)
      else if namedError checker t then (True, insert t seen, log @ [t])
      else if classOrInterface checker t
        then isErrorInterfaceOrBase_bases checker (basesOf checker t) (insert t seen) (log @ [t])
      else (False, insert t seen, log @ [t]))"
  by (simp add: isErrorInterfaceOrBase.simps namedError_def classOrInterface_def basesOf_def)

lemma walk_uniform:
  fixes checker :: "('n, 'h::finite) checker" and log :: "'h list"
  shows "\<exists>r new. distinct new \<and> set new \<inter> seen = {} \<and>
           (\<forall>lg. isErrorInterfaceOrBase checker t seen lg = (r, seen \<union> set new, lg @ new))"
    and "\<exists>r new. distinct new \<and> set new \<inter> seen = {} \<and>
           (\<forall>lg. isErrorInterfaceOrBase_bases checker bases seen lg = (r, seen \<union> set new, lg @ new))"
proof (induction checker t seen log and checker bases seen log
    rule: isErrorInterfaceOrBase_isErrorInterfaceOrBase_bases.induct)
  case (1 checker type seen log)
  show ?case
  proof (cases "type \<in> seen")
    case True
    then have "\<forall>lg. isErrorInterfaceOrBase checker type seen lg = (False, seen \<union> set [], lg @ [])"
      by (simp add: walk_step)
    then show ?thesis by (intro exI[of _ False] exI[of _ "[]"]) simp
  next
    case unseen: False
    show ?thesis
    proof (cases "namedError checker type")
      case True
      then have "\<forall>lg. isErrorInterfaceOrBase checker type seen lg = (True, seen \<union> set [type], lg @ [type])"
        using unseen by (simp add: walk_step)
      then show ?thesis using unseen by (intro exI[of _ True] exI[of _ "[type]"]) simp
    next
      case notErr: False
      show ?thesis
      proof (cases "classOrInterface checker type")
        case True
        have "\<exists>r new. distinct new \<and> set new \<inter> insert type seen = {} \<and>
           (\<forall>lg. isErrorInterfaceOrBase_bases checker (basesOf checker type) (insert type seen) lg
               = (r, insert type seen \<union> set new, lg @ new))"
          using 1 unseen notErr True
          by (simp add: namedError_def classOrInterface_def basesOf_def)
        then obtain r new where n: "distinct new" "set new \<inter> insert type seen = {}"
          and e: "\<And>lg. isErrorInterfaceOrBase_bases checker (basesOf checker type) (insert type seen) lg
               = (r, insert type seen \<union> set new, lg @ new)"
          by blast
        have "\<forall>lg. isErrorInterfaceOrBase checker type seen lg
                = (r, seen \<union> set (type # new), lg @ (type # new))"
          using unseen notErr True e by (simp add: walk_step)
        moreover have "distinct (type # new)" "set (type # new) \<inter> seen = {}"
          using n unseen by auto
        ultimately show ?thesis by blast
      next
        case False
        then have "\<forall>lg. isErrorInterfaceOrBase checker type seen lg = (False, seen \<union> set [type], lg @ [type])"
          using unseen notErr by (simp add: walk_step)
        then show ?thesis using unseen by (intro exI[of _ False] exI[of _ "[type]"]) simp
      qed
    qed
  qed
next
  case (2 checker seen log)
  have "\<forall>lg. isErrorInterfaceOrBase_bases checker [] seen lg = (False, seen \<union> set [], lg @ [])"
    by simp
  then show ?case by (intro exI[of _ False] exI[of _ "[]"]) simp
next
  case (3 checker b bases seen log)
  from 3(1) obtain r1 new1 where n1: "distinct new1" "set new1 \<inter> seen = {}"
    and e1: "\<And>lg. isErrorInterfaceOrBase checker b seen lg = (r1, seen \<union> set new1, lg @ new1)"
    by blast
  show ?case
  proof (cases r1)
    case True
    then have "\<forall>lg. isErrorInterfaceOrBase_bases checker (b # bases) seen lg
        = (True, seen \<union> set new1, lg @ new1)"
      using e1 by simp
    then show ?thesis using n1 by blast
  next
    case False
    have "\<exists>r new. distinct new \<and> set new \<inter> (seen \<union> set new1) = {} \<and>
           (\<forall>lg. isErrorInterfaceOrBase_bases checker bases (seen \<union> set new1) lg
               = (r, (seen \<union> set new1) \<union> set new, lg @ new))"
      using 3(2)[OF e1[symmetric] refl refl] False by simp
    then obtain r2 new2 where n2: "distinct new2" "set new2 \<inter> (seen \<union> set new1) = {}"
      and e2: "\<And>lg. isErrorInterfaceOrBase_bases checker bases (seen \<union> set new1) lg
               = (r2, (seen \<union> set new1) \<union> set new2, lg @ new2)"
      by blast
    have "\<forall>lg. isErrorInterfaceOrBase_bases checker (b # bases) seen lg
        = (r2, seen \<union> set (new1 @ new2), lg @ (new1 @ new2))"
      using e1 e2 False by (simp add: Un_assoc)
    moreover have "distinct (new1 @ new2)" "set (new1 @ new2) \<inter> seen = {}"
      using n1 n2 by auto
    ultimately show ?thesis by blast
  qed
qed


lemma walk_result:
  fixes checker :: "('n, 'h::finite) checker"
  assumes "isErrorInterfaceOrBase checker t seen log = (r, s, l)"
  shows "\<exists>new. l = log @ new \<and> s = seen \<union> set new \<and> distinct new \<and> set new \<inter> seen = {}"
  using walk_uniform(1)[of seen checker t] assms by auto

lemma walk_any_log:
  fixes checker :: "('n, 'h::finite) checker"
  shows "fst (isErrorInterfaceOrBase checker t seen log) = fst (isErrorInterfaceOrBase checker t seen [])"
  using walk_uniform(1)[of seen checker t] by (metis fst_conv)

lemma walk_closed:
  fixes checker :: "('n, 'h::finite) checker"
  shows "isErrorInterfaceOrBase checker t seen log = (False, s, l) \<Longrightarrow>
           t \<in> s \<and> seen \<subseteq> s \<and>
           (\<forall>x \<in> s - seen. \<not> namedError checker x \<and>
              (classOrInterface checker x \<longrightarrow> set (basesOf checker x) \<subseteq> s))"
    and "isErrorInterfaceOrBase_bases checker bases seen log = (False, s, l) \<Longrightarrow>
           set bases \<subseteq> s \<and> seen \<subseteq> s \<and>
           (\<forall>x \<in> s - seen. \<not> namedError checker x \<and>
              (classOrInterface checker x \<longrightarrow> set (basesOf checker x) \<subseteq> s))"
proof (induction checker t seen log and checker bases seen log arbitrary: s l and s l
    rule: isErrorInterfaceOrBase_isErrorInterfaceOrBase_bases.induct)
  case (1 checker type seen log)
  show ?case
  proof (cases "type \<in> seen")
    case True
    then show ?thesis using 1(2) by (auto simp: walk_step)
  next
    case unseen: False
    then have notErr: "\<not> namedError checker type"
      using 1(2) by (auto simp: walk_step split: if_splits)
    show ?thesis
    proof (cases "classOrInterface checker type")
      case True
      then have run: "isErrorInterfaceOrBase_bases checker (basesOf checker type)
                   (insert type seen) (log @ [type]) = (False, s, l)"
        using 1(2) unseen notErr by (simp add: walk_step)
      have "set (basesOf checker type) \<subseteq> s \<and> insert type seen \<subseteq> s \<and>
           (\<forall>x \<in> s - insert type seen. \<not> namedError checker x \<and>
              (classOrInterface checker x \<longrightarrow> set (basesOf checker x) \<subseteq> s))"
        using 1(1)[of s l] unseen notErr True run
        by (simp add: namedError_def classOrInterface_def basesOf_def)
      then show ?thesis using notErr by auto
    next
      case False
      then have "s = insert type seen"
        using 1(2) unseen notErr by (simp add: walk_step)
      then show ?thesis using notErr False by auto
    qed
  qed
next
  case (2 checker seen log)
  then show ?case by simp
next
  case (3 checker b bases seen log)
  obtain r1 s1 l1 where e1: "isErrorInterfaceOrBase checker b seen log = (r1, s1, l1)"
    by (cases "isErrorInterfaceOrBase checker b seen log") auto
  have nf: "\<not> r1" and rest: "isErrorInterfaceOrBase_bases checker bases s1 l1 = (False, s, l)"
    using 3(3) e1 by (auto split: if_splits)
  have a: "b \<in> s1 \<and> seen \<subseteq> s1 \<and>
           (\<forall>x \<in> s1 - seen. \<not> namedError checker x \<and>
              (classOrInterface checker x \<longrightarrow> set (basesOf checker x) \<subseteq> s1))"
    using 3(1)[of s1 l1] e1 nf by simp
  have b: "set bases \<subseteq> s \<and> s1 \<subseteq> s \<and>
           (\<forall>x \<in> s - s1. \<not> namedError checker x \<and>
              (classOrInterface checker x \<longrightarrow> set (basesOf checker x) \<subseteq> s))"
    using 3(2)[OF e1[symmetric] refl refl nf rest] .
  show ?case
  proof (intro conjI ballI)
    show "set (b # bases) \<subseteq> s" using a b by auto
    show "seen \<subseteq> s" using a b by auto
  next
    fix x assume x: "x \<in> s - seen"
    show "\<not> namedError checker x" using a b x by blast
    show "classOrInterface checker x \<longrightarrow> set (basesOf checker x) \<subseteq> s"
    proof (cases "x \<in> s1")
      case True
      then have "classOrInterface checker x \<longrightarrow> set (basesOf checker x) \<subseteq> s1"
        using a x by blast
      then show ?thesis using b by blast
    next
      case False
      then show ?thesis using b x by blast
    qed
  qed
qed

lemma chain_in_closed:
  assumes "\<forall>x \<in> S. classOrInterface checker x \<longrightarrow> set (basesOf checker x) \<subseteq> S"
  shows "baseChain checker (t # path) \<Longrightarrow> t \<in> S \<Longrightarrow> set (t # path) \<subseteq> S"
proof (induction path arbitrary: t)
  case Nil
  then show ?case by simp
next
  case (Cons b rest)
  have "b \<in> S" using Cons.prems assms by auto
  moreover have "baseChain checker (b # rest)" using Cons.prems by simp
  ultimately have "set (b # rest) \<subseteq> S" using Cons.IH by blast
  then show ?case using Cons.prems by simp
qed

lemma walk_complete:
  fixes checker :: "('n, 'h::finite) checker"
  assumes "baseChain checker path" and "hd path = t" and "namedError checker (last path)"
  shows "fst (isErrorInterfaceOrBase checker t {} log)"
proof (rule ccontr)
  assume "\<not> fst (isErrorInterfaceOrBase checker t {} log)"
  then obtain s l where run: "isErrorInterfaceOrBase checker t {} log = (False, s, l)"
    by (cases "isErrorInterfaceOrBase checker t {} log") auto
  have c: "t \<in> s \<and> (\<forall>x \<in> s. \<not> namedError checker x \<and>
              (classOrInterface checker x \<longrightarrow> set (basesOf checker x) \<subseteq> s))"
    using walk_closed(1)[OF run] by simp
  obtain rest where path: "path = t # rest"
    using assms(1,2) by (cases path) auto
  have "set (t # rest) \<subseteq> s"
    using chain_in_closed[of s checker t rest] assms(1) c path by blast
  then have "last path \<in> s" using path last_in_set[of "t # rest"] by auto
  then show False using c assms(3) by blast
qed

lemma walk_sound:
  fixes checker :: "('n, 'h::finite) checker"
  shows "fst (isErrorInterfaceOrBase checker t seen log) \<Longrightarrow>
           \<exists>path. baseChain checker path \<and> hd path = t \<and> namedError checker (last path)"
    and "fst (isErrorInterfaceOrBase_bases checker bases seen log) \<Longrightarrow>
           \<exists>b \<in> set bases. \<exists>path. baseChain checker path \<and> hd path = b \<and> namedError checker (last path)"
proof (induction checker t seen log and checker bases seen log
    rule: isErrorInterfaceOrBase_isErrorInterfaceOrBase_bases.induct)
  case (1 checker type seen log)
  have unseen: "type \<notin> seen" using 1(2) by (auto simp: walk_step split: if_splits)
  show ?case
  proof (cases "namedError checker type")
    case True
    then have "baseChain checker [type] \<and> hd [type] = type \<and> namedError checker (last [type])"
      by simp
    then show ?thesis by blast
  next
    case notErr: False
    then have cls: "classOrInterface checker type"
      and run: "fst (isErrorInterfaceOrBase_bases checker (basesOf checker type)
                   (insert type seen) (log @ [type]))"
      using 1(2) unseen by (auto simp: walk_step split: if_splits)
    have "\<exists>b \<in> set (basesOf checker type). \<exists>path. baseChain checker path \<and> hd path = b
             \<and> namedError checker (last path)"
      using 1(1) unseen notErr cls run
      by (simp add: namedError_def classOrInterface_def basesOf_def)
    then obtain b path where b: "b \<in> set (basesOf checker type)"
      and p: "baseChain checker path" "hd path = b" "namedError checker (last path)"
      by blast
    from p(1) obtain rest where path: "path = b # rest"
      using p(2) by (cases path) auto
    have "baseChain checker (type # path)" using cls b p(1) path by simp
    moreover have "hd (type # path) = type" by simp
    moreover have "namedError checker (last (type # path))" using p(3) path by simp
    ultimately show ?thesis by blast
  qed
next
  case (2 checker seen log)
  then show ?case by simp
next
  case (3 checker b bases seen log)
  obtain r1 s1 l1 where e1: "isErrorInterfaceOrBase checker b seen log = (r1, s1, l1)"
    by (cases "isErrorInterfaceOrBase checker b seen log") auto
  show ?case
  proof (cases r1)
    case True
    then show ?thesis using 3(1) e1 by simp
  next
    case False
    then have "fst (isErrorInterfaceOrBase_bases checker bases s1 l1)"
      using 3(3) e1 by simp
    then show ?thesis using 3(2)[OF e1[symmetric] refl refl] False by simp
  qed
qed

subsection \<open>Flattening\<close>

lemma flatMap_member:
  "flatMap f xs = Some ys \<Longrightarrow> x \<in> set xs \<Longrightarrow> \<exists>zs. f x = Some zs \<and> set zs \<subseteq> set ys"
proof (induction xs arbitrary: ys)
  case Nil
  then show ?case by simp
next
  case (Cons a xs)
  from Cons.prems(1) obtain as rest where a: "f a = Some as" and r: "flatMap f xs = Some rest"
    and ys: "ys = as @ rest"
    by (auto simp: bind_eq_Some_conv)
  show ?case
  proof (cases "x = a")
    case True
    then show ?thesis using a ys by simp
  next
    case False
    then have "x \<in> set xs" using Cons.prems(2) by simp
    then obtain zs where "f x = Some zs" "set zs \<subseteq> set rest"
      using Cons.IH[OF r] by blast
    then show ?thesis using ys by auto
  qed
qed

lemma flatten_leaf: "leaf checker t \<Longrightarrow> flattenTypes checker t = Some [t]"
  by (subst flattenTypes.simps) (simp add: leaf_def)

lemma flatten_union:
  "isUnion (typeAt checker t) \<Longrightarrow>
     flattenTypes checker t = flatMap (flattenTypes checker) (types (typeAt checker t))"
  by (subst flattenTypes.simps) simp

subsection \<open>The loop over the parts\<close>

lemma parts_result:
  fixes checker :: "('n, 'h::finite) checker"
  shows "fst (isErrorOrSubclass_parts checker parts log) =
           (\<exists>t \<in> set parts. \<not> discarded checker t \<and> walkPart checker t)"
proof (induction parts arbitrary: log)
  case Nil
  show ?case by simp
next
  case (Cons t parts)
  show ?case
  proof (cases "discarded checker t")
    case True
    then have "isErrorOrSubclass_parts checker (t # parts) log
                 = isErrorOrSubclass_parts checker parts log"
      by (auto simp: discarded_def)
    then show ?thesis using Cons.IH True by simp
  next
    case False
    obtain r s l where e:
      "isErrorInterfaceOrBase checker (getApparentType checker t) {} log = (r, s, l)"
      by (cases "isErrorInterfaceOrBase checker (getApparentType checker t) {} log") auto
    have w: "walkPart checker t = r"
      using walk_any_log[of checker "getApparentType checker t" "{}" log] e
      by (simp add: walkPart_def)
    have "isErrorOrSubclass_parts checker (t # parts) log
            = (if r then (True, l) else isErrorOrSubclass_parts checker parts l)"
      using False e by (simp add: discarded_def)
    then show ?thesis using Cons.IH[of l] False w by auto
  qed
qed

lemma parts_filter:
  fixes checker :: "('n, 'h::finite) checker"
  shows "isErrorOrSubclass_parts checker parts log =
           isErrorOrSubclass_parts checker (filter (\<lambda>t. \<not> discarded checker t) parts) log"
proof (induction parts arbitrary: log)
  case Nil
  show ?case by simp
next
  case (Cons t parts)
  show ?case
  proof (cases "discarded checker t")
    case True
    then have "isErrorOrSubclass_parts checker (t # parts) log
                 = isErrorOrSubclass_parts checker parts log"
      by (auto simp: discarded_def)
    then show ?thesis using Cons.IH True by simp
  next
    case False
    then have "\<not> truthy (flags (typeAt checker t) AND TypeFlags_Any)"
      "\<not> truthy (flags (typeAt checker t) AND TypeFlags_Unknown)"
      "\<not> truthy (flags (typeAt checker t) AND TypeFlags_Never)"
      by (auto simp: discarded_def)
    then show ?thesis using Cons.IH False
      by (simp add: Let_def split: prod.splits)
  qed
qed

lemma parts_short_circuit:
  fixes checker :: "('n, 'h::finite) checker"
  assumes "\<not> discarded checker t" and "walkPart checker t"
  shows "isErrorOrSubclass_parts checker (pre @ t # post) log =
           isErrorOrSubclass_parts checker (pre @ [t]) log"
proof (induction pre arbitrary: log)
  case Nil
  obtain r s l where e:
    "isErrorInterfaceOrBase checker (getApparentType checker t) {} log = (r, s, l)"
    by (cases "isErrorInterfaceOrBase checker (getApparentType checker t) {} log") auto
  have "r" using walk_any_log[of checker "getApparentType checker t" "{}" log] e assms(2)
    by (simp add: walkPart_def)
  then show ?case using assms(1) e by (simp add: discarded_def)
next
  case (Cons a pre)
  then show ?case by (simp add: Let_def split: prod.splits)
qed

lemma matcher_result:
  fixes checker :: "('n, 'h::finite) checker"
  assumes "flattenTypes checker ty = Some parts"
  shows "isErrorOrSubclass checker ty =
           Some (\<exists>t \<in> set parts. \<not> discarded checker t \<and> walkPart checker t)"
  using assms parts_result[of checker parts "[]"]
  by (simp add: isErrorOrSubclass_def isErrorOrSubclass_run_def)

subsection \<open>The listener\<close>

lemma listener_eq:
  fixes services :: "('n, 'h::finite) services"
  shows "ExpressionStatement_listener services (ExpressionStatement expr) reports =
     (case getStandaloneCall expr of
        None \<Rightarrow> Some reports
      | Some ex \<Rightarrow>
          map_option
            (\<lambda>found. if found then reports @ [requireErrorCheck (ExpressionStatement expr)]
                      else reports)
            (isErrorOrSubclass (getTypeChecker services) (resolveResultType services ex)))"
  by (auto simp: ExpressionStatement_listener_def resolveResultType_def requireErrorCheck_def
      Let_def split: option.splits bool.splits)

lemma standalone_call:
  "getStandaloneCall (CallExpression r f args) =
     Some \<lparr>call = CallExpression r f args, isAwait = False\<rparr>"
  by (simp add: getStandaloneCall_def)

lemma standalone_await:
  "getStandaloneCall (AwaitExpression (Some (CallExpression r f args))) =
     Some \<lparr>call = CallExpression r f args, isAwait = True\<rparr>"
  by (simp add: getStandaloneCall_def)

lemma standalone_other:
  assumes "\<nexists>r f args. expr = CallExpression r f args"
    and "\<nexists>r f args. expr = AwaitExpression (Some (CallExpression r f args))"
  shows "getStandaloneCall expr = None"
proof (cases expr)
  case (AwaitExpression a)
  show ?thesis
  proof (cases a)
    case None
    then show ?thesis using AwaitExpression by (simp add: getStandaloneCall_def)
  next
    case (Some e)
    then have "\<nexists>r f args. e = CallExpression r f args"
      using assms(2) AwaitExpression by simp
    then have "expression_type e \<noteq> ''CallExpression''" by (cases e) simp_all
    then show ?thesis using AwaitExpression Some by (simp add: getStandaloneCall_def)
  qed
qed (use assms(1) in \<open>simp_all add: getStandaloneCall_def\<close>)

subsection \<open>The example program, evaluated\<close>

lemma demo_flatten:
  "flattenTypes demo_checker TError = Some [TError]"
  "flattenTypes demo_checker TErrorOrTrue = Some [TError, TTrue]"
  "flattenTypes demo_checker TErrorOrString = Some [TString, TError]"
  "flattenTypes demo_checker TMyErrorOrNull = Some [TNull, TMyError]"
  "flattenTypes demo_checker TAorB = Some [TA, TB]"
  "flattenTypes demo_checker TUnknown = Some [TUnknown]"
  "flattenTypes demo_checker TAny = Some [TAny]"
  "flattenTypes demo_checker TNever = Some [TNever]"
  "flattenTypes demo_checker TPromise = Some [TPromise]"
  "flattenTypes demo_checker TParam = Some [TParam]"
  "flattenTypes demo_checker TParamMyError = Some [TMyError]"
  "flattenTypes demo_checker TParamOrNull = Some [TParam, TNull]"
  "flattenTypes demo_checker TParamMyErrorOrNull = Some [TMyError, TNull]"
  "flattenTypes demo_checker TErrorAndCoded = Some [TError, TCoded]"
  "flattenTypes demo_checker TCodedErrorOrNull = Some [TNull, TError, TCoded]"
  "flattenTypes demo_checker TGenErr = Some [TGenErr]"
  "flattenTypes demo_checker TI1 = Some [TI1]"
  by (simp_all add: flattenTypes.simps demo_defs flag_defs)

lemma demo_matcher:
  "isErrorOrSubclass demo_checker TError = Some True"
  "isErrorOrSubclass demo_checker TErrorOrTrue = Some True"
  "isErrorOrSubclass demo_checker TErrorOrString = Some True"
  "isErrorOrSubclass demo_checker TMyErrorOrNull = Some True"
  "isErrorOrSubclass demo_checker TUnknown = Some False"
  "isErrorOrSubclass demo_checker TAny = Some False"
  "isErrorOrSubclass demo_checker TNever = Some False"
  "isErrorOrSubclass demo_checker TPromise = Some False"
  "isErrorOrSubclass demo_checker TAorB = Some False"
  "isErrorOrSubclass demo_checker TGenErr = Some False"
  "isErrorOrSubclass demo_checker TParam = Some False"
  "isErrorOrSubclass demo_checker TParamMyError = Some True"
  by (simp_all add: isErrorOrSubclass_def isErrorOrSubclass_run_def flattenTypes.simps
      isErrorInterfaceOrBase.simps demo_defs flag_defs)

subsection \<open>The host and the listener\<close>

lemma visit_other:
  "statement_type nd \<noteq> ''ExpressionStatement'' \<Longrightarrow> visit (create services) nd reports = Some reports"
  by (simp add: visit_def create_def)

lemma visit_expression_statement:
  "visit (create services) (ExpressionStatement expr) reports =
     ExpressionStatement_listener services (ExpressionStatement expr) reports"
  by (simp add: visit_def create_def)

lemma visit_spec:
  fixes services :: "('n, 'h::finite) services"
  shows "visit (create services) nd reports =
     map_option (\<lambda>found. if found then reports @ [requireErrorCheck nd] else reports)
       (spec_report services nd)"
  by (cases nd)
    (auto simp: visit_other visit_expression_statement listener_eq spec_report_def
      split: option.splits)

lemma traverse_spec:
  fixes services :: "('n, 'h::finite) services"
  shows "traverse (create services) nodes reports =
     (if \<forall>nd \<in> set nodes. spec_report services nd \<noteq> None
        then Some (reports @ map requireErrorCheck
                     (filter (\<lambda>nd. spec_report services nd = Some True) nodes))
      else None)"
proof (induction nodes arbitrary: reports)
  case Nil
  show ?case by simp
next
  case (Cons nd nodes)
  show ?case
  proof (cases "spec_report services nd")
    case None
    then show ?thesis by (simp add: visit_spec del: not_None_eq)
  next
    case (Some found)
    then show ?thesis using Cons.IH
      by (cases found) (simp_all add: visit_spec del: not_None_eq)
  qed
qed

text \<open>
  C1. At an expression statement whose expression is a bare or awaited call, the listener
  reports exactly when \<open>isErrorOrSubclass\<close> answers true for the resolved type of the call.
  Any other expression statement, and any statement of another type (a declaration, a
  return, a throw), leaves the diagnostics as they were. So the diagnostics of a file are
  those of its bare-call statements whose type may be an error, in order.
\<close>

theorem report_iff_may_be_error:
  fixes services :: "('n, 'h::finite) services"
  shows
  "(getStandaloneCall expr = Some ex \<longrightarrow>
      visit (create services) (ExpressionStatement expr) reports =
        map_option
          (\<lambda>found. if found then reports @ [requireErrorCheck (ExpressionStatement expr)]
                    else reports)
          (isErrorOrSubclass (getTypeChecker services) (resolveResultType services ex)))
   \<and> (getStandaloneCall expr = None \<longrightarrow>
        visit (create services) (ExpressionStatement expr) reports = Some reports)
   \<and> (statement_type nd \<noteq> ''ExpressionStatement'' \<longrightarrow>
        visit (create services) nd reports = Some reports)
   \<and> lintFile services nodes =
        (if \<forall>nd \<in> set nodes. spec_report services nd \<noteq> None
           then Some (map requireErrorCheck
                        (filter (\<lambda>nd. spec_report services nd = Some True) nodes))
         else None)"
proof (intro conjI impI)
  assume "getStandaloneCall expr = Some ex"
  then show "visit (create services) (ExpressionStatement expr) reports =
        map_option
          (\<lambda>found. if found then reports @ [requireErrorCheck (ExpressionStatement expr)]
                    else reports)
          (isErrorOrSubclass (getTypeChecker services) (resolveResultType services ex))"
    by (simp add: visit_expression_statement listener_eq)
next
  assume "getStandaloneCall expr = None"
  then show "visit (create services) (ExpressionStatement expr) reports = Some reports"
    by (simp add: visit_expression_statement listener_eq)
next
  assume "statement_type nd \<noteq> ''ExpressionStatement''"
  then show "visit (create services) nd reports = Some reports"
    by (rule visit_other)
next
  show "lintFile services nodes =
        (if \<forall>nd \<in> set nodes. spec_report services nd \<noteq> None
           then Some (map requireErrorCheck
                        (filter (\<lambda>nd. spec_report services nd = Some True) nodes))
         else None)"
    using traverse_spec[of services nodes "[]"] by (simp add: lintFile_def)
qed

theorem report_iff_may_be_error_witness:
  "getStandaloneCall (callOf ''f'' (0, 3)) = Some \<lparr>call = callOf ''f'' (0, 3), isAwait = False\<rparr>
   \<and> visit (create demo_services) (ExpressionStatement (callOf ''f'' (0, 3))) [] =
       Some [requireErrorCheck (ExpressionStatement (callOf ''f'' (0, 3)))]
   \<and> getStandaloneCall (AssignmentExpression (Identifier ''x'') (callOf ''f'' (47, 50))) = None
   \<and> visit (create demo_services)
        (ExpressionStatement (AssignmentExpression (Identifier ''x'') (callOf ''f'' (47, 50)))) []
       = Some []
   \<and> statement_type (ReturnStatement (Some (callOf ''f'' (27, 30)))) \<noteq> ''ExpressionStatement''
   \<and> visit (create demo_services) (ReturnStatement (Some (callOf ''f'' (27, 30)))) [] = Some []
   \<and> lintFile demo_services demo_file =
       Some [requireErrorCheck (ExpressionStatement (callOf ''f'' (0, 3))),
             requireErrorCheck (ExpressionStatement (AwaitExpression (Some (callOf ''g'' (58, 61)))))]"
proof -
  have c: "getStandaloneCall (callOf ''f'' (0, 3)) = Some \<lparr>call = callOf ''f'' (0, 3), isAwait = False\<rparr>"
    by (simp add: callOf_def standalone_call)
  have n: "getStandaloneCall (AssignmentExpression (Identifier ''x'') (callOf ''f'' (47, 50))) = None"
    by (simp add: getStandaloneCall_def)
  have t: "statement_type (ReturnStatement (Some (callOf ''f'' (27, 30)))) \<noteq> ''ExpressionStatement''"
    by simp
  have r: "resolveResultType demo_services \<lparr>call = callOf ''f'' (0, 3), isAwait = False\<rparr> = TErrorOrTrue"
    by (simp add: resolveResultType_def demo_defs)
  have g: "getStandaloneCall (AwaitExpression (Some (callOf ''g'' (58, 61))))
             = Some \<lparr>call = callOf ''g'' (58, 61), isAwait = True\<rparr>"
    by (simp add: callOf_def standalone_await)
  have rg: "resolveResultType demo_services \<lparr>call = callOf ''g'' (58, 61), isAwait = True\<rparr> = TErrorOrString"
    by (simp add: resolveResultType_def getAwaitedType_def demo_defs)
  have k: "getStandaloneCall (callOf ''k'' (63, 66)) = Some \<lparr>call = callOf ''k'' (63, 66), isAwait = False\<rparr>"
    by (simp add: callOf_def standalone_call)
  have rk: "resolveResultType demo_services \<lparr>call = callOf ''k'' (63, 66), isAwait = False\<rparr> = TUnknown"
    by (simp add: resolveResultType_def demo_defs)
  have m: "getTypeChecker demo_services = demo_checker" by (simp add: demo_services_def)
  have s: "spec_report demo_services (ExpressionStatement (callOf ''f'' (0, 3))) = Some True"
    "spec_report demo_services (VariableDeclaration ''r'' (Some (callOf ''f'' (15, 18)))) = Some False"
    "spec_report demo_services (ReturnStatement (Some (callOf ''f'' (27, 30)))) = Some False"
    "spec_report demo_services (ThrowStatement (callOf ''f'' (38, 41))) = Some False"
    "spec_report demo_services
       (ExpressionStatement (AssignmentExpression (Identifier ''x'') (callOf ''f'' (47, 50)))) = Some False"
    "spec_report demo_services (ExpressionStatement (AwaitExpression (Some (callOf ''g'' (58, 61))))) = Some True"
    "spec_report demo_services (ExpressionStatement (callOf ''k'' (63, 66))) = Some False"
    by (simp_all add: spec_report_def c n g k r rg rk m demo_matcher)
  show ?thesis
    using report_iff_may_be_error[of "callOf ''f'' (0, 3)" "\<lparr>call = callOf ''f'' (0, 3), isAwait = False\<rparr>"
        demo_services "[]" "ReturnStatement (Some (callOf ''f'' (27, 30)))" demo_file]
      report_iff_may_be_error[of "AssignmentExpression (Identifier ''x'') (callOf ''f'' (47, 50))" _
        demo_services "[]"]
    by (simp add: c n r m s demo_matcher demo_file_def del: not_None_eq)
qed

subsection \<open>The classifier and the matcher\<close>

text \<open>
  C2. \<open>getStandaloneCall\<close> knows two shapes. A call expression gives the call itself, not
  awaited; an await expression whose argument is a call expression gives that call,
  awaited. Every other expression (a member access, a conditional, a sequence, an await of
  something that is not a call, ...) gives nothing.
\<close>

theorem getStandaloneCall_shapes:
  "getStandaloneCall (CallExpression r f args) =
     Some \<lparr>call = CallExpression r f args, isAwait = False\<rparr>
   \<and> getStandaloneCall (AwaitExpression (Some (CallExpression r f args))) =
       Some \<lparr>call = CallExpression r f args, isAwait = True\<rparr>
   \<and> ((\<nexists>r f args. expr = CallExpression r f args)
        \<and> (\<nexists>r f args. expr = AwaitExpression (Some (CallExpression r f args)))
        \<longrightarrow> getStandaloneCall expr = None)"
  using standalone_call standalone_await standalone_other by blast

theorem getStandaloneCall_shapes_witness:
  "getStandaloneCall (callOf ''f'' (0, 3)) = Some \<lparr>call = callOf ''f'' (0, 3), isAwait = False\<rparr>
   \<and> getStandaloneCall (AwaitExpression (Some (callOf ''f'' (6, 9)))) =
       Some \<lparr>call = callOf ''f'' (6, 9), isAwait = True\<rparr>
   \<and> getStandaloneCall (MemberExpression (callOf ''f'' (0, 3)) ''message'') = None
   \<and> getStandaloneCall
         (ConditionalExpression (Identifier ''c'') (callOf ''f'' (4, 7)) (callOf ''g'' (10, 13))) = None
   \<and> getStandaloneCall (SequenceExpression [callOf ''f'' (0, 3), callOf ''g'' (5, 8)]) = None
   \<and> getStandaloneCall (AwaitExpression (Some (Identifier ''promise''))) = None
   \<and> getStandaloneCall (AwaitExpression (Some (AwaitExpression (Some (callOf ''g'' (12, 15)))))) = None
   \<and> getStandaloneCall (ChainExpression (callOf ''f'' (0, 5))) = None
   \<and> getStandaloneCall (TSNonNullExpression (callOf ''f'' (0, 3))) = None"
  using getStandaloneCall_shapes[of "(0, 3)" "Identifier ''f''" "[]"
      "MemberExpression (callOf ''f'' (0, 3)) ''message''"]
    getStandaloneCall_shapes[of "(6, 9)" "Identifier ''f''" "[]"
      "ConditionalExpression (Identifier ''c'') (callOf ''f'' (4, 7)) (callOf ''g'' (10, 13))"]
    getStandaloneCall_shapes[of _ _ _ "SequenceExpression [callOf ''f'' (0, 3), callOf ''g'' (5, 8)]"]
    getStandaloneCall_shapes[of _ _ _ "AwaitExpression (Some (Identifier ''promise''))"]
    getStandaloneCall_shapes[of _ _ _
      "AwaitExpression (Some (AwaitExpression (Some (callOf ''g'' (12, 15)))))"]
    getStandaloneCall_shapes[of _ _ _ "ChainExpression (callOf ''f'' (0, 5))"]
    getStandaloneCall_shapes[of _ _ _ "TSNonNullExpression (callOf ''f'' (0, 3))"]
  by (simp add: callOf_def)

lemma report_call:
  fixes services :: "('n, 'h::finite) services"
  assumes "isErrorOrSubclass (getTypeChecker services)
             (getTypeAtLocation (getTypeChecker services)
                (esTreeNodeToTSNodeMap services (CallExpression r f args))) = Some found"
  shows "ExpressionStatement_listener services (ExpressionStatement (CallExpression r f args)) reports =
           Some (if found
                 then reports @ [requireErrorCheck (ExpressionStatement (CallExpression r f args))]
                 else reports)"
  using assms by (simp add: listener_eq standalone_call resolveResultType_def)

lemma named_error_walk:
  fixes checker :: "('n, 'h::finite) checker"
  shows "namedError checker (getApparentType checker t) \<Longrightarrow> walkPart checker t"
  by (simp add: walkPart_def walk_step)

lemma demo_resolve:
  "getTypeChecker demo_services = demo_checker"
  "resolveResultType demo_services \<lparr>call = c, isAwait = False\<rparr> = demo_typeOfCall c"
  "resolveResultType demo_services \<lparr>call = c, isAwait = True\<rparr> =
     (case demo_awaited (demo_typeOfCall c) of Some a \<Rightarrow> a | None \<Rightarrow> demo_typeOfCall c)"
  "getTypeAtLocation demo_checker (esTreeNodeToTSNodeMap demo_services c) = demo_typeOfCall c"
  by (simp_all add: resolveResultType_def getAwaitedType_def demo_services_def demo_checker_def
      Let_def split: option.splits)

lemma demo_listener:
  "ExpressionStatement_listener demo_services (ExpressionStatement (callOf ''n'' (0, 3))) []
     = Some [requireErrorCheck (ExpressionStatement (callOf ''n'' (0, 3)))]"
  "ExpressionStatement_listener demo_services (ExpressionStatement (callOf ''f'' (0, 3))) []
     = Some [requireErrorCheck (ExpressionStatement (callOf ''f'' (0, 3)))]"
  "ExpressionStatement_listener demo_services (ExpressionStatement (callOf ''h'' (0, 3))) []
     = Some [requireErrorCheck (ExpressionStatement (callOf ''h'' (0, 3)))]"
  "ExpressionStatement_listener demo_services (ExpressionStatement (callOf ''k'' (0, 3))) [] = Some []"
  "ExpressionStatement_listener demo_services (ExpressionStatement (callOf ''r'' (0, 3))) [] = Some []"
  "ExpressionStatement_listener demo_services (ExpressionStatement (callOf ''p'' (0, 3))) [] = Some []"
  "ExpressionStatement_listener demo_services
     (ExpressionStatement (AwaitExpression (Some (callOf ''g'' (6, 9))))) []
     = Some [requireErrorCheck (ExpressionStatement (AwaitExpression (Some (callOf ''g'' (6, 9)))))]"
  "ExpressionStatement_listener demo_services (ExpressionStatement (callOf ''g'' (6, 9))) [] = Some []"
  by (simp_all add: callOf_def listener_eq standalone_call standalone_await demo_resolve
      demo_matcher)


lemma demo_notions:
  "leaf demo_checker TError" "\<not> discarded demo_checker TError"
  "namedError demo_checker (getApparentType demo_checker TError)"
  "isUnion (typeAt demo_checker TErrorOrTrue)"
  "types (typeAt demo_checker TErrorOrTrue) = [TError, TTrue]"
  "walkPart demo_checker TError"
  "\<not> discarded demo_checker TMyError"
  "getApparentType demo_checker TMyError = TMyError"
  "\<not> namedError demo_checker TMyError"
  "namedError demo_checker TError"
  "baseChain demo_checker [TMyError, TError]"
  "walkPart demo_checker TMyError"
  "discarded demo_checker TAny" "discarded demo_checker TUnknown" "discarded demo_checker TNever"
  "leaf demo_checker TUnknown"
  "flags (typeAt demo_checker TUnknown) = TypeFlags_Unknown"
  by (simp_all add: leaf_def discarded_def namedError_def walkPart_def classOrInterface_def
      basesOf_def isErrorInterfaceOrBase.simps demo_defs flag_defs)

lemma demo_parts:
  "isErrorOrSubclass_parts demo_checker [TError, TTrue] [] = (True, [TError])"
  "isErrorOrSubclass_parts demo_checker [TError] [] = (True, [TError])"
  "isErrorOrSubclass_parts demo_checker [TAny, TMyError, TNever] [] = (True, [TMyError, TError])"
  "isErrorOrSubclass_parts demo_checker [TMyError] [] = (True, [TMyError, TError])"
  by (simp_all add: isErrorInterfaceOrBase.simps demo_defs flag_defs)

text \<open>
  C5. The loop over the parts skips every part that is any, unknown or never: the result,
  and the types inspected, are those of the loop over the other parts. So when all the parts
  of the resolved type of a bare or awaited call are of these three, and in particular when
  the type itself is any, unknown or never, nothing is reported.
\<close>

theorem any_unknown_never_not_reported:
  fixes services :: "('n, 'h::finite) services"
  assumes "checker = getTypeChecker services"
    and "getStandaloneCall expr = Some ex"
    and "resolveResultType services ex = ty"
  shows
  "isErrorOrSubclass_parts checker parts log =
     isErrorOrSubclass_parts checker (filter (\<lambda>t. \<not> discarded checker t) parts) log
   \<and> (flattenTypes checker ty = Some parts \<and> (\<forall>t \<in> set parts. discarded checker t)
        \<longrightarrow> isErrorOrSubclass checker ty = Some False
            \<and> ExpressionStatement_listener services (ExpressionStatement expr) reports
                = Some reports)
   \<and> (flags (typeAt checker ty) = TypeFlags_Any \<or> flags (typeAt checker ty) = TypeFlags_Unknown
        \<or> flags (typeAt checker ty) = TypeFlags_Never
        \<longrightarrow> ExpressionStatement_listener services (ExpressionStatement expr) reports
              = Some reports)"
proof (intro conjI impI)
  show "isErrorOrSubclass_parts checker parts log =
     isErrorOrSubclass_parts checker (filter (\<lambda>t. \<not> discarded checker t) parts) log"
    by (rule parts_filter)
next
  assume a: "flattenTypes checker ty = Some parts \<and> (\<forall>t \<in> set parts. discarded checker t)"
  then show m: "isErrorOrSubclass checker ty = Some False"
    using matcher_result[of checker ty parts] by simp
  show "ExpressionStatement_listener services (ExpressionStatement expr) reports = Some reports"
    using m assms by (simp add: listener_eq)
next
  assume a: "flags (typeAt checker ty) = TypeFlags_Any \<or> flags (typeAt checker ty) = TypeFlags_Unknown
        \<or> flags (typeAt checker ty) = TypeFlags_Never"
  then have "leaf checker ty" and d: "discarded checker ty"
    by (auto simp: leaf_def discarded_def flag_defs)
  then have "flattenTypes checker ty = Some [ty]" by (simp add: flatten_leaf)
  then have "isErrorOrSubclass checker ty = Some False"
    using matcher_result[of checker ty "[ty]"] d by simp
  then show "ExpressionStatement_listener services (ExpressionStatement expr) reports = Some reports"
    using assms by (simp add: listener_eq)
qed

theorem any_unknown_never_not_reported_witness:
  "getStandaloneCall (callOf ''k'' (0, 3)) = Some \<lparr>call = callOf ''k'' (0, 3), isAwait = False\<rparr>
   \<and> resolveResultType demo_services \<lparr>call = callOf ''k'' (0, 3), isAwait = False\<rparr> = TUnknown
   \<and> isErrorOrSubclass_parts demo_checker [TAny, TMyError, TNever] [] = (True, [TMyError, TError])
   \<and> isErrorOrSubclass_parts demo_checker [TMyError] [] = (True, [TMyError, TError])
   \<and> flattenTypes demo_checker TUnknown = Some [TUnknown] \<and> discarded demo_checker TUnknown
   \<and> isErrorOrSubclass demo_checker TUnknown = Some False
   \<and> flags (typeAt demo_checker TUnknown) = TypeFlags_Unknown
   \<and> ExpressionStatement_listener demo_services (ExpressionStatement (callOf ''k'' (0, 3))) [] = Some []"
proof -
  have k: "getStandaloneCall (callOf ''k'' (0, 3)) = Some \<lparr>call = callOf ''k'' (0, 3), isAwait = False\<rparr>"
    by (simp add: callOf_def standalone_call)
  have r: "resolveResultType demo_services \<lparr>call = callOf ''k'' (0, 3), isAwait = False\<rparr> = TUnknown"
    by (simp add: demo_resolve callOf_def)
  show ?thesis
    using any_unknown_never_not_reported[where parts = "[TAny, TMyError, TNever]"
          and log = "[]" and reports = "[]", OF demo_resolve(1)[symmetric] k r]
      any_unknown_never_not_reported[where parts = "[TUnknown]" and log = "[]"
          and reports = "[]", OF demo_resolve(1)[symmetric] k r]
    by (simp add: k r demo_notions demo_flatten demo_parts del: isErrorOrSubclass_parts.simps)
qed

subsection \<open>Walks of the example program\<close>

lemma flatten_type_parameter_eq:
  assumes "\<not> isUnion (typeAt checker t)" and "\<not> isIntersection (typeAt checker t)"
    and "truthy (flags (typeAt checker t) AND TypeFlags_TypeParameter)"
  shows "flattenTypes checker t =
           (case getBaseConstraintOfType checker t of
              Some constraint \<Rightarrow> flattenTypes checker constraint
            | None \<Rightarrow> Some [t])"
  using assms by (subst flattenTypes.simps) simp

lemma demo_walks:
  "isErrorInterfaceOrBase demo_checker TI1 {} [] = (False, {TI1, TI2}, [TI1, TI2])"
  "isErrorInterfaceOrBase demo_checker TI1 {TI2} [TI2] = (False, {TI1, TI2}, [TI2, TI1])"
  "isErrorInterfaceOrBase demo_checker TI2 {TI1, TI2} [TI1, TI2] = (False, {TI1, TI2}, [TI1, TI2])"
  "isErrorInterfaceOrBase demo_checker TGenErr {} [] = (False, {TGenErr}, [TGenErr])"
  "isErrorInterfaceOrBase demo_checker TNull {} [] = (False, {TNull}, [TNull])"
  "isErrorInterfaceOrBase demo_checker TMyError {} [] = (True, {TMyError, TError}, [TMyError, TError])"
  by (simp_all add: isErrorInterfaceOrBase.simps demo_defs flag_defs insert_commute)

subsection \<open>Awaited calls\<close>

text \<open>
  C8. \<open>getAwaitedType\<close> always returns a type. When the checker has \<^verbatim>\<open>getAwaitedType\<close> that
  operation is used; when it has not but has \<^verbatim>\<open>getPromisedTypeOfPromise\<close>, that one is
  used; the type itself is returned when the operation used answers nothing and when the
  checker has neither. A statement \<^verbatim>\<open>await call();\<close> is reported exactly when the matcher
  answers true for the type so unwrapped.
\<close>

theorem awaited_type_fallback:
  fixes services :: "('n, 'h::finite) services"
  assumes "checker = getTypeChecker services"
    and "stmt = ExpressionStatement (AwaitExpression (Some (CallExpression r f args)))"
    and "ty = getTypeAtLocation checker (esTreeNodeToTSNodeMap services (CallExpression r f args))"
  shows
  "(checker_getAwaitedType checker = Some getAwaited
      \<longrightarrow> getAwaitedType checker ty =
            (case getAwaited ty of Some awaited \<Rightarrow> awaited | None \<Rightarrow> ty))
   \<and> (checker_getAwaitedType checker = None \<and> getPromisedTypeOfPromise checker = Some getPromised
      \<longrightarrow> getAwaitedType checker ty =
            (case getPromised ty of Some promised \<Rightarrow> promised | None \<Rightarrow> ty))
   \<and> (checker_getAwaitedType checker = None \<and> getPromisedTypeOfPromise checker = None
      \<longrightarrow> getAwaitedType checker ty = ty)
   \<and> ExpressionStatement_listener services stmt reports =
       map_option (\<lambda>found. if found then reports @ [requireErrorCheck stmt] else reports)
         (isErrorOrSubclass checker (getAwaitedType checker ty))"
proof (intro conjI impI)
  assume "checker_getAwaitedType checker = Some getAwaited"
  then show "getAwaitedType checker ty =
            (case getAwaited ty of Some awaited \<Rightarrow> awaited | None \<Rightarrow> ty)"
    by (simp add: getAwaitedType_def)
next
  assume "checker_getAwaitedType checker = None \<and> getPromisedTypeOfPromise checker = Some getPromised"
  then show "getAwaitedType checker ty =
            (case getPromised ty of Some promised \<Rightarrow> promised | None \<Rightarrow> ty)"
    by (simp add: getAwaitedType_def)
next
  assume "checker_getAwaitedType checker = None \<and> getPromisedTypeOfPromise checker = None"
  then show "getAwaitedType checker ty = ty"
    by (simp add: getAwaitedType_def)
next
  show "ExpressionStatement_listener services stmt reports =
       map_option (\<lambda>found. if found then reports @ [requireErrorCheck stmt] else reports)
         (isErrorOrSubclass checker (getAwaitedType checker ty))"
    unfolding assms by (simp add: listener_eq standalone_await resolveResultType_def Let_def)
qed

lemma demo_await:
  "isErrorOrSubclass (getTypeChecker demo_promised_only) TErrorOrString = Some True"
  "isErrorOrSubclass (getTypeChecker demo_no_unwrap) TPromise = Some False"
  by (simp_all add: demo_promised_only_def demo_no_unwrap_def isErrorOrSubclass_def
      isErrorOrSubclass_run_def flattenTypes.simps isErrorInterfaceOrBase.simps demo_defs flag_defs)

theorem awaited_type_fallback_witness:
  "checker_getAwaitedType demo_checker = Some demo_awaited
   \<and> getAwaitedType demo_checker TPromise = TErrorOrString
   \<and> ExpressionStatement_listener demo_services
        (ExpressionStatement (AwaitExpression (Some (callOf ''g'' (6, 9))))) []
       = Some [requireErrorCheck (ExpressionStatement (AwaitExpression (Some (callOf ''g'' (6, 9)))))]
   \<and> checker_getAwaitedType (getTypeChecker demo_promised_only) = None
   \<and> getPromisedTypeOfPromise (getTypeChecker demo_promised_only) = Some demo_promised
   \<and> getAwaitedType (getTypeChecker demo_promised_only) TPromise = TErrorOrString
   \<and> getAwaitedType (getTypeChecker demo_promised_only) TString = TString
   \<and> ExpressionStatement_listener demo_promised_only
        (ExpressionStatement (AwaitExpression (Some (callOf ''g'' (6, 9))))) []
       = Some [requireErrorCheck (ExpressionStatement (AwaitExpression (Some (callOf ''g'' (6, 9)))))]
   \<and> checker_getAwaitedType (getTypeChecker demo_no_unwrap) = None
   \<and> getPromisedTypeOfPromise (getTypeChecker demo_no_unwrap) = None
   \<and> getAwaitedType (getTypeChecker demo_no_unwrap) TPromise = TPromise
   \<and> ExpressionStatement_listener demo_no_unwrap
        (ExpressionStatement (AwaitExpression (Some (callOf ''g'' (6, 9))))) [] = Some []"
proof -
  have t: "TPromise = getTypeAtLocation demo_checker
             (esTreeNodeToTSNodeMap demo_services (CallExpression (6, 9) (Identifier ''g'') []))"
    "TPromise = getTypeAtLocation (getTypeChecker demo_promised_only)
             (esTreeNodeToTSNodeMap demo_promised_only (CallExpression (6, 9) (Identifier ''g'') []))"
    "TPromise = getTypeAtLocation (getTypeChecker demo_no_unwrap)
             (esTreeNodeToTSNodeMap demo_no_unwrap (CallExpression (6, 9) (Identifier ''g'') []))"
    by (simp_all add: demo_promised_only_def demo_no_unwrap_def demo_services_def demo_checker_def)
  have o: "checker_getAwaitedType demo_checker = Some demo_awaited"
    "checker_getAwaitedType (getTypeChecker demo_promised_only) = None"
    "getPromisedTypeOfPromise (getTypeChecker demo_promised_only) = Some demo_promised"
    "checker_getAwaitedType (getTypeChecker demo_no_unwrap) = None"
    "getPromisedTypeOfPromise (getTypeChecker demo_no_unwrap) = None"
    by (simp_all add: demo_promised_only_def demo_no_unwrap_def demo_services_def demo_checker_def)
  have s: "getAwaitedType (getTypeChecker demo_promised_only) TString = TString"
    by (simp add: getAwaitedType_def o)
  show ?thesis
    using awaited_type_fallback[OF demo_resolve(1)[symmetric] refl t(1),
        where getAwaited = demo_awaited and reports = "[]"]
      awaited_type_fallback[OF refl refl t(2), where getPromised = demo_promised and reports = "[]"]
      awaited_type_fallback[OF refl refl t(3), where reports = "[]"]
    by (simp add: o s demo_matcher demo_await callOf_def)
qed

subsection \<open>No state between statements\<close>

lemma listener_appends:
  fixes services :: "('n, 'h::finite) services"
  shows "ExpressionStatement_listener services nd reports =
           map_option (\<lambda>ds. reports @ ds) (ExpressionStatement_listener services nd [])"
  by (auto simp: ExpressionStatement_listener_def Let_def split: option.splits bool.splits)

lemma traverse_appends:
  fixes services :: "('n, 'h::finite) services"
  shows "traverse (create services) nodes reports =
           map_option (\<lambda>ds. reports @ ds) (lintFile services nodes)"
  using traverse_spec[of services nodes reports] traverse_spec[of services nodes "[]"]
  by (simp add: lintFile_def del: not_None_eq)

lemma traverse_append:
  "traverse ls (nodes @ later) reports =
     (case traverse ls nodes reports of
        None \<Rightarrow> None
      | Some ds \<Rightarrow> traverse ls later ds)"
  by (induction nodes arbitrary: reports) (simp_all split: option.splits)

text \<open>
  C9. The rule keeps no state. The only thing that passes from one statement to the next
  is the list of diagnostics, and the rule only appends to it: what the listener and a
  whole run add does not depend on the diagnostics collected before, and the diagnostics
  of the statements that follow do not depend on the statements analysed before them. In
  particular a second run over the same statements, with the same answers of the type
  checker, adds the same diagnostics again.
\<close>

theorem lint_stateless:
  fixes services :: "('n, 'h::finite) services"
  shows
  "ExpressionStatement_listener services nd reports =
     map_option (\<lambda>ds. reports @ ds) (ExpressionStatement_listener services nd [])
   \<and> traverse (create services) nodes reports =
       map_option (\<lambda>ds. reports @ ds) (lintFile services nodes)
   \<and> lintFile services (nodes @ later) =
       (case lintFile services nodes of
          None \<Rightarrow> None
        | Some ds \<Rightarrow> map_option (\<lambda>ds'. ds @ ds') (lintFile services later))
   \<and> (case lintFile services nodes of
         None \<Rightarrow> lintFile services (nodes @ nodes) = None
       | Some ds \<Rightarrow> lintFile services (nodes @ nodes) = Some (ds @ ds))"
proof (intro conjI)
  show "ExpressionStatement_listener services nd reports =
     map_option (\<lambda>ds. reports @ ds) (ExpressionStatement_listener services nd [])"
    by (rule listener_appends)
  show "traverse (create services) nodes reports =
       map_option (\<lambda>ds. reports @ ds) (lintFile services nodes)"
    by (rule traverse_appends)
  show a: "lintFile services (nodes @ later) =
       (case lintFile services nodes of
          None \<Rightarrow> None
        | Some ds \<Rightarrow> map_option (\<lambda>ds'. ds @ ds') (lintFile services later))" for later
  proof (cases "lintFile services nodes")
    case None
    then show ?thesis
      using traverse_append[of "create services" nodes later "[]"] by (simp add: lintFile_def)
  next
    case (Some ds)
    then have "lintFile services (nodes @ later) = traverse (create services) later ds"
      using traverse_append[of "create services" nodes later "[]"] by (simp add: lintFile_def)
    then show ?thesis using Some traverse_appends[of services later ds] by simp
  qed
  show "case lintFile services nodes of
         None \<Rightarrow> lintFile services (nodes @ nodes) = None
       | Some ds \<Rightarrow> lintFile services (nodes @ nodes) = Some (ds @ ds)"
    using a[of nodes] by (simp split: option.splits)
qed

lemma demo_lint:
  "lintFile demo_services demo_file =
     Some [requireErrorCheck (ExpressionStatement (callOf ''f'' (0, 3))),
           requireErrorCheck (ExpressionStatement (AwaitExpression (Some (callOf ''g'' (58, 61)))))]"
  by (simp add: lintFile_def demo_file_def visit_expression_statement visit_other listener_eq
      callOf_def standalone_call standalone_await demo_resolve demo_matcher getStandaloneCall_def)

theorem lint_stateless_witness:
  "lintFile demo_services demo_file =
     Some [requireErrorCheck (ExpressionStatement (callOf ''f'' (0, 3))),
           requireErrorCheck (ExpressionStatement (AwaitExpression (Some (callOf ''g'' (58, 61)))))]
   \<and> lintFile demo_services (demo_file @ demo_file) =
     Some [requireErrorCheck (ExpressionStatement (callOf ''f'' (0, 3))),
           requireErrorCheck (ExpressionStatement (AwaitExpression (Some (callOf ''g'' (58, 61))))),
           requireErrorCheck (ExpressionStatement (callOf ''f'' (0, 3))),
           requireErrorCheck (ExpressionStatement (AwaitExpression (Some (callOf ''g'' (58, 61)))))]
   \<and> traverse (create demo_services) demo_file
        [requireErrorCheck (ExpressionStatement (callOf ''k'' (63, 66)))] =
     Some [requireErrorCheck (ExpressionStatement (callOf ''k'' (63, 66))),
           requireErrorCheck (ExpressionStatement (callOf ''f'' (0, 3))),
           requireErrorCheck (ExpressionStatement (AwaitExpression (Some (callOf ''g'' (58, 61)))))]"
  using lint_stateless[of demo_services _ "[requireErrorCheck (ExpressionStatement (callOf ''k'' (63, 66)))]"
      demo_file]
  by (simp add: demo_lint)

subsection \<open>Where the walk descends\<close>

text \<open>
  C10. The walk looks at base types only of an object type flagged as class or interface.
  For a type that is not one (a type reference such as an instantiation of a generic class,
  an object literal type, a type that is not an object type), the walk inspects that type
  alone and answers whether its own symbol is called \<^verbatim>\<open>Error\<close>.
\<close>

theorem no_descent_unless_class_or_interface:
  fixes checker :: "('n, 'h::finite) checker"
  shows
  "(\<not> (truthy (flags (typeAt checker t) AND TypeFlags_Object)
        \<and> truthy (objectFlags (typeAt checker t) AND ObjectFlags_ClassOrInterface))
      \<and> t \<notin> seen
      \<longrightarrow> isErrorInterfaceOrBase checker t seen log =
            (symbol (typeAt checker t) = Some ''Error'', insert t seen, log @ [t]))
   \<and> (isErrorInterfaceOrBase checker t {} [] = (found, seen', log') \<and> log' \<noteq> [t]
      \<longrightarrow> truthy (flags (typeAt checker t) AND TypeFlags_Object)
          \<and> truthy (objectFlags (typeAt checker t) AND ObjectFlags_ClassOrInterface))"
proof -
  have a: "isErrorInterfaceOrBase checker t seen log =
            (symbol (typeAt checker t) = Some ''Error'', insert t seen, log @ [t])"
    if "\<not> (truthy (flags (typeAt checker t) AND TypeFlags_Object)
        \<and> truthy (objectFlags (typeAt checker t) AND ObjectFlags_ClassOrInterface))"
      and "t \<notin> seen" for seen log
    using that by (auto simp: isErrorInterfaceOrBase.simps)
  show ?thesis
  proof (intro conjI impI)
    assume "\<not> (truthy (flags (typeAt checker t) AND TypeFlags_Object)
        \<and> truthy (objectFlags (typeAt checker t) AND ObjectFlags_ClassOrInterface))
      \<and> t \<notin> seen"
    then show "isErrorInterfaceOrBase checker t seen log =
            (symbol (typeAt checker t) = Some ''Error'', insert t seen, log @ [t])"
      using a by blast
  next
    assume b: "isErrorInterfaceOrBase checker t {} [] = (found, seen', log') \<and> log' \<noteq> [t]"
    show "truthy (flags (typeAt checker t) AND TypeFlags_Object)"
      using a[of "{}" "[]"] b by auto
    show "truthy (objectFlags (typeAt checker t) AND ObjectFlags_ClassOrInterface)"
      using a[of "{}" "[]"] b by auto
  qed
qed

theorem no_descent_unless_class_or_interface_witness:
  "\<not> (truthy (flags (typeAt demo_checker TGenErr) AND TypeFlags_Object)
       \<and> truthy (objectFlags (typeAt demo_checker TGenErr) AND ObjectFlags_ClassOrInterface))
   \<and> TGenErr \<notin> {}
   \<and> getBaseTypes demo_checker TGenErr = Some [TError]
   \<and> isErrorInterfaceOrBase demo_checker TGenErr {} [] = (False, {TGenErr}, [TGenErr])
   \<and> ExpressionStatement_listener demo_services (ExpressionStatement (callOf ''r'' (0, 3))) [] = Some []
   \<and> isErrorInterfaceOrBase demo_checker TNull {} [] = (False, {TNull}, [TNull])
   \<and> isErrorInterfaceOrBase demo_checker TMyError {} [] = (True, {TMyError, TError}, [TMyError, TError])
   \<and> [TMyError, TError] \<noteq> [TMyError]
   \<and> truthy (flags (typeAt demo_checker TMyError) AND TypeFlags_Object)
   \<and> truthy (objectFlags (typeAt demo_checker TMyError) AND ObjectFlags_ClassOrInterface)"
proof -
  have g: "\<not> (truthy (flags (typeAt demo_checker TGenErr) AND TypeFlags_Object)
       \<and> truthy (objectFlags (typeAt demo_checker TGenErr) AND ObjectFlags_ClassOrInterface))"
    "\<not> (truthy (flags (typeAt demo_checker TNull) AND TypeFlags_Object)
       \<and> truthy (objectFlags (typeAt demo_checker TNull) AND ObjectFlags_ClassOrInterface))"
    "symbol (typeAt demo_checker TGenErr) = Some ''GenErr''"
    "symbol (typeAt demo_checker TNull) = None"
    "getBaseTypes demo_checker TGenErr = Some [TError]"
    by (simp_all add: demo_defs flag_defs)
  show ?thesis
    using no_descent_unless_class_or_interface[where checker = demo_checker and t = TGenErr
        and seen = "{}" and log = "[]"]
      no_descent_unless_class_or_interface[where checker = demo_checker and t = TNull
        and seen = "{}" and log = "[]"]
      no_descent_unless_class_or_interface[where checker = demo_checker and t = TMyError
        and found = True and seen' = "{TMyError, TError}" and log' = "[TMyError, TError]"]
    by (simp add: g demo_walks demo_listener)
qed

subsection \<open>Flattening, by the shape of the type\<close>

lemma flatten_compound:
  "isUnion (typeAt checker t) \<or> isIntersection (typeAt checker t) \<Longrightarrow>
     flattenTypes checker t = flatMap (flattenTypes checker) (types (typeAt checker t))"
  by (subst flattenTypes.simps) auto

lemma flatten_parameter:
  "isTypeParameter checker t \<Longrightarrow>
     flattenTypes checker t =
       (case getBaseConstraintOfType checker t of
          Some constraint \<Rightarrow> flattenTypes checker constraint
        | None \<Rightarrow> Some [t])"
  by (subst flattenTypes.simps) (simp add: isTypeParameter_def)

lemma flattens_returns:
  "flattensTo checker t parts \<Longrightarrow> flattenTypes checker t = Some parts"
  "flattensAllTo checker ts parts \<Longrightarrow> flatMap (flattenTypes checker) ts = Some parts"
proof (induction rule: flattensTo_flattensAllTo.inducts)
  case (union checker t parts)
  then show ?case by (simp add: flatten_compound)
next
  case (intersection checker t parts)
  then show ?case by (simp add: flatten_compound)
next
  case (constrained checker t constraint parts)
  then show ?case by (simp add: flatten_parameter)
next
  case (unconstrained checker t)
  then show ?case by (simp add: flatten_parameter)
next
  case (other checker t)
  then show ?case by (simp add: flatten_leaf)
next
  case (none checker)
  then show ?case by simp
next
  case (member checker t parts ts parts')
  then show ?case by simp
qed

lemma flatMap_flattens:
  "(\<And>m ps. m \<in> set ts \<Longrightarrow> f m = Some ps \<Longrightarrow> flattensTo checker m ps) \<Longrightarrow>
     flatMap f ts = Some qs \<Longrightarrow> flattensAllTo checker ts qs"
proof (induction ts arbitrary: qs)
  case Nil
  then show ?case by (simp add: flattensTo_flattensAllTo.none)
next
  case (Cons t ts)
  from Cons.prems(2) obtain ps rs where a: "f t = Some ps" and r: "flatMap f ts = Some rs"
    and p: "qs = ps @ rs"
    by (auto simp: bind_eq_Some_conv)
  have "flattensTo checker t ps" using Cons.prems(1) a by simp
  moreover have "flattensAllTo checker ts rs" using Cons.IH[OF _ r] Cons.prems(1) by simp
  ultimately show ?case using p by (simp add: flattensTo_flattensAllTo.member)
qed

lemma returns_flattens:
  assumes "flattenTypes checker0 t0 = Some parts0"
  shows "flattensTo checker0 t0 parts0"
proof (rule flattenTypes.raw_induct[where P = "\<lambda>c t ps. flattensTo c t ps", OF _ assms],
    goal_cases)
  case (1 flattenTypes' checker t parts)
  show ?case
  proof (cases "isUnion (typeAt checker t)")
    case True
    then have "flatMap (flattenTypes' checker) (types (typeAt checker t)) = Some parts"
      using 1(2) by simp
    then have "flattensAllTo checker (types (typeAt checker t)) parts"
      using flatMap_flattens[of "types (typeAt checker t)" "flattenTypes' checker" checker parts] 1(1)
      by blast
    with True show ?thesis by (rule flattensTo_flattensAllTo.union)
  next
    case nu: False
    show ?thesis
    proof (cases "isIntersection (typeAt checker t)")
      case True
      then have "flatMap (flattenTypes' checker) (types (typeAt checker t)) = Some parts"
        using 1(2) nu by simp
      then have "flattensAllTo checker (types (typeAt checker t)) parts"
        using flatMap_flattens[of "types (typeAt checker t)" "flattenTypes' checker" checker parts]
          1(1)
        by blast
      with nu True show ?thesis by (rule flattensTo_flattensAllTo.intersection)
    next
      case ni: False
      show ?thesis
      proof (cases "truthy (flags (typeAt checker t) AND TypeFlags_TypeParameter)")
        case True
        then have tp: "isTypeParameter checker t" using nu ni by (simp add: isTypeParameter_def)
        show ?thesis
        proof (cases "getBaseConstraintOfType checker t")
          case None
          then have "parts = [t]" using 1(2) nu ni True by simp
          then show ?thesis using tp None by (simp add: flattensTo_flattensAllTo.unconstrained)
        next
          case (Some k)
          then have "flattenTypes' checker k = Some parts" using 1(2) nu ni True by simp
          then have "flattensTo checker k parts" using 1(1) by blast
          with tp Some show ?thesis by (rule flattensTo_flattensAllTo.constrained)
        qed
      next
        case nt: False
        then have "parts = [t]" using 1(2) nu ni by simp
        moreover have "leaf checker t" using nu ni nt by (simp add: leaf_def)
        ultimately show ?thesis by (simp add: flattensTo_flattensAllTo.other)
      qed
    qed
  qed
qed

lemma flattens_iff:
  "flattensTo checker t parts \<longleftrightarrow> flattenTypes checker t = Some parts"
proof
  assume "flattensTo checker t parts"
  then show "flattenTypes checker t = Some parts" by (rule flattens_returns(1))
next
  assume "flattenTypes checker t = Some parts"
  then show "flattensTo checker t parts" by (rule returns_flattens)
qed

lemma flattens_parts:
  "flattensTo checker t parts \<Longrightarrow> \<forall>p \<in> set parts. flatPart checker p"
  "flattensAllTo checker ts parts \<Longrightarrow> \<forall>p \<in> set parts. flatPart checker p"
proof (induction rule: flattensTo_flattensAllTo.inducts)
  case (unconstrained checker t)
  then show ?case by (simp add: flatPart_def isTypeParameter_def)
next
  case (other checker t)
  then show ?case by (simp add: flatPart_def leaf_def)
qed auto

lemma flattens_compound_members:
  assumes "isUnion (typeAt checker u) \<or> isIntersection (typeAt checker u)"
    and "flattensTo checker u parts" and "m \<in> set (types (typeAt checker u))"
  shows "\<exists>ps. flattensTo checker m ps \<and> set ps \<subseteq> set parts"
proof -
  have "flatMap (flattenTypes checker) (types (typeAt checker u)) = Some parts"
    using assms(1,2) flatten_compound[of checker u] by (simp add: flattens_iff)
  then obtain ps where "flattenTypes checker m = Some ps" "set ps \<subseteq> set parts"
    using flatMap_member[of "flattenTypes checker" "types (typeAt checker u)" parts m] assms(3)
    by blast
  then show ?thesis by (auto simp: flattens_iff)
qed

lemma flattens_leaf_members:
  assumes "isUnion (typeAt checker u) \<or> isIntersection (typeAt checker u)"
    and "\<forall>m \<in> set (types (typeAt checker u)). leaf checker m"
  shows "flattensTo checker u (types (typeAt checker u))"
proof -
  have "flattensAllTo checker ts ts" if "\<forall>m \<in> set ts. leaf checker m" for ts
    using that
  proof (induction ts)
    case Nil
    show ?case by (rule flattensTo_flattensAllTo.none)
  next
    case (Cons m ts)
    then have "flattensTo checker m [m]" "flattensAllTo checker ts ts"
      by (simp_all add: flattensTo_flattensAllTo.other)
    then have "flattensAllTo checker (m # ts) ([m] @ ts)"
      by (rule flattensTo_flattensAllTo.member)
    then show ?case by simp
  qed
  then have a: "flattensAllTo checker (types (typeAt checker u)) (types (typeAt checker u))"
    using assms(2) by blast
  show ?thesis
  proof (cases "isUnion (typeAt checker u)")
    case True
    then show ?thesis using a by (rule flattensTo_flattensAllTo.union)
  next
    case False
    then have "isIntersection (typeAt checker u)" using assms(1) by simp
    with False show ?thesis using a by (rule flattensTo_flattensAllTo.intersection)
  qed
qed

lemma matcher_returns:
  fixes checker :: "('n, 'h::finite) checker"
  assumes "flattensTo checker ty parts"
  shows "isErrorOrSubclass_run checker ty = Some (isErrorOrSubclass_parts checker parts [])"
    and "isErrorOrSubclass checker ty =
           Some (\<exists>t \<in> set parts. \<not> discarded checker t \<and> walkPart checker t)"
  using assms matcher_result[of checker ty parts]
  by (simp_all add: flattens_iff isErrorOrSubclass_run_def)

subsection \<open>Errors and unions of errors\<close>

lemma demo_flattens:
  "flattensTo demo_checker TError [TError]"
  "flattensTo demo_checker TErrorOrTrue [TError, TTrue]"
  "flattensTo demo_checker TMyErrorOrNull [TNull, TMyError]"
  "flattensTo demo_checker TCodedErrorOrNull [TNull, TError, TCoded]"
  "flattensTo demo_checker TErrorAndCoded [TError, TCoded]"
  "flattensTo demo_checker TParam [TParam]"
  "flattensTo demo_checker TParamOrNull [TParam, TNull]"
  "flattensTo demo_checker TParamMyError [TMyError]"
  "flattensTo demo_checker TParamMyErrorOrNull [TMyError, TNull]"
  "flattensTo demo_checker TMyError [TMyError]"
  "flattensTo demo_checker TI1 [TI1]"
  "flattensTo demo_checker TAorB [TA, TB]"
  by (simp_all add: flattens_iff flattenTypes.simps demo_defs flag_defs)

lemma demo_types:
  "isUnion (typeAt demo_checker TErrorOrTrue)"
  "types (typeAt demo_checker TErrorOrTrue) = [TError, TTrue]"
  "isUnion (typeAt demo_checker TMyErrorOrNull)"
  "types (typeAt demo_checker TMyErrorOrNull) = [TNull, TMyError]"
  "isUnion (typeAt demo_checker TCodedErrorOrNull)"
  "types (typeAt demo_checker TCodedErrorOrNull) = [TNull, TErrorAndCoded]"
  "isIntersection (typeAt demo_checker TErrorAndCoded)"
  "types (typeAt demo_checker TErrorAndCoded) = [TError, TCoded]"
  "isUnion (typeAt demo_checker TParamOrNull)"
  "types (typeAt demo_checker TParamOrNull) = [TParam, TNull]"
  "isUnion (typeAt demo_checker TParamMyErrorOrNull)"
  "types (typeAt demo_checker TParamMyErrorOrNull) = [TParamMyError, TNull]"
  "isTypeParameter demo_checker TParam" "isTypeParameter demo_checker TParamMyError"
  "getBaseConstraintOfType demo_checker TParam = None"
  "getBaseConstraintOfType demo_checker TParamMyError = Some TMyError"
  "leaf demo_checker TTrue" "leaf demo_checker TNull" "leaf demo_checker TMyError"
  "leaf demo_checker TCoded"
  "getApparentType demo_checker TParam = TUnknown"
  "\<not> namedError demo_checker TUnknown" "\<not> classOrInterface demo_checker TUnknown"
  "\<not> discarded demo_checker TParam" "\<not> discarded demo_checker TNull"
  "\<not> walkPart demo_checker TNull" "\<not> walkPart demo_checker TParam"
  by (simp_all add: leaf_def isTypeParameter_def namedError_def classOrInterface_def
      discarded_def walkPart_def isErrorInterfaceOrBase.simps demo_defs flag_defs)

text \<open>
  C3. A bare call statement is reported when the type of the call is a type that
  \<open>flattenTypes\<close> returns as it is, is not any, unknown or never, and whose apparent type is
  called \<^verbatim>\<open>Error\<close>. It is reported when the type is a union whose members are such plain
  types and one of them is the error type, and, whatever finite nesting of unions,
  intersections and constrained type parameters the type has, when the error type is
  among the parts that nesting comes to. In each case \<open>flattenTypes\<close> returns: it gives
  exactly those parts, none of them a union or an intersection, and the answer of the
  matcher is the disjunction over them. The parts after the first match are not walked.
\<close>

theorem error_or_union_reported:
  fixes services :: "('n, 'h::finite) services"
  assumes "checker = getTypeChecker services"
    and "getTypeAtLocation checker (esTreeNodeToTSNodeMap services (CallExpression r f args)) = ty"
    and "stmt = ExpressionStatement (CallExpression r f args)"
  shows
  "(leaf checker ty \<and> \<not> discarded checker ty \<and> namedError checker (getApparentType checker ty)
      \<longrightarrow> ExpressionStatement_listener services stmt reports
            = Some (reports @ [requireErrorCheck stmt]))
   \<and> (isUnion (typeAt checker ty) \<and> (\<forall>m \<in> set (types (typeAt checker ty)). leaf checker m)
        \<and> e \<in> set (types (typeAt checker ty))
        \<and> \<not> discarded checker e \<and> namedError checker (getApparentType checker e)
      \<longrightarrow> flattenTypes checker ty = Some (types (typeAt checker ty))
          \<and> ExpressionStatement_listener services stmt reports
              = Some (reports @ [requireErrorCheck stmt]))
   \<and> (flattensTo checker ty parts
      \<longrightarrow> flattenTypes checker ty = Some parts
          \<and> (\<forall>p \<in> set parts. \<not> isUnion (typeAt checker p) \<and> \<not> isIntersection (typeAt checker p))
          \<and> isErrorOrSubclass checker ty
              = Some (\<exists>t \<in> set parts. \<not> discarded checker t \<and> walkPart checker t))
   \<and> (flattensTo checker ty parts \<and> e \<in> set parts
        \<and> \<not> discarded checker e \<and> namedError checker (getApparentType checker e)
      \<longrightarrow> ExpressionStatement_listener services stmt reports
            = Some (reports @ [requireErrorCheck stmt]))
   \<and> (\<not> discarded checker t \<and> walkPart checker t
      \<longrightarrow> isErrorOrSubclass_parts checker (pre @ t # post) log
            = isErrorOrSubclass_parts checker (pre @ [t]) log)"
proof -
  have reported: "ExpressionStatement_listener services stmt reports
                    = Some (reports @ [requireErrorCheck stmt])"
    if "flattensTo checker ty ps" and "e \<in> set ps" and "\<not> discarded checker e"
      and "namedError checker (getApparentType checker e)" for ps
  proof -
    have "isErrorOrSubclass checker ty = Some True"
      using matcher_returns(2)[OF that(1)] that(2,3) named_error_walk[OF that(4)] by auto
    then show ?thesis
      using report_call[of services r f args True reports] assms by simp
  qed
  show ?thesis
  proof (intro conjI impI)
    assume a: "leaf checker ty \<and> \<not> discarded checker ty
               \<and> namedError checker (getApparentType checker ty)"
    then have "flattensTo checker ty [ty]" by (simp add: flattensTo_flattensAllTo.other)
    then have "isErrorOrSubclass checker ty = Some True"
      using matcher_returns(2)[of checker ty "[ty]"] a named_error_walk[of checker ty] by simp
    then show "ExpressionStatement_listener services stmt reports
                 = Some (reports @ [requireErrorCheck stmt])"
      using report_call[of services r f args True reports] assms by simp
  next
    assume a: "isUnion (typeAt checker ty) \<and> (\<forall>m \<in> set (types (typeAt checker ty)). leaf checker m)
        \<and> e \<in> set (types (typeAt checker ty))
        \<and> \<not> discarded checker e \<and> namedError checker (getApparentType checker e)"
    then have f: "flattensTo checker ty (types (typeAt checker ty))"
      using flattens_leaf_members[of checker ty] by simp
    then show "flattenTypes checker ty = Some (types (typeAt checker ty))"
      by (rule flattens_returns(1))
    show "ExpressionStatement_listener services stmt reports
                 = Some (reports @ [requireErrorCheck stmt])"
      using reported[OF f] a by simp
  next
    assume f: "flattensTo checker ty parts"
    then show "flattenTypes checker ty = Some parts" by (rule flattens_returns(1))
    show "\<forall>p \<in> set parts. \<not> isUnion (typeAt checker p) \<and> \<not> isIntersection (typeAt checker p)"
      using flattens_parts(1)[OF f] by (simp add: flatPart_def)
    show "isErrorOrSubclass checker ty
              = Some (\<exists>t \<in> set parts. \<not> discarded checker t \<and> walkPart checker t)"
      by (rule matcher_returns(2)[OF f])
  next
    assume "flattensTo checker ty parts \<and> e \<in> set parts
        \<and> \<not> discarded checker e \<and> namedError checker (getApparentType checker e)"
    then show "ExpressionStatement_listener services stmt reports
                 = Some (reports @ [requireErrorCheck stmt])"
      using reported[of parts] by simp
  next
    assume "\<not> discarded checker t \<and> walkPart checker t"
    then show "isErrorOrSubclass_parts checker (pre @ t # post) log
            = isErrorOrSubclass_parts checker (pre @ [t]) log"
      using parts_short_circuit[of checker t pre post log] by simp
  qed
qed

lemma demo_more:
  "ExpressionStatement_listener demo_services (ExpressionStatement (callOf ''c'' (0, 3))) []
     = Some [requireErrorCheck (ExpressionStatement (callOf ''c'' (0, 3)))]"
  "isErrorOrSubclass demo_checker TCodedErrorOrNull = Some True"
  "isErrorOrSubclass_parts demo_checker [TNull, TError, TCoded] [] = (True, [TNull, TError])"
  "isErrorOrSubclass_parts demo_checker [TNull, TError] [] = (True, [TNull, TError])"
proof -
  show m: "isErrorOrSubclass demo_checker TCodedErrorOrNull = Some True"
    by (simp add: isErrorOrSubclass_def isErrorOrSubclass_run_def flattenTypes.simps
        isErrorInterfaceOrBase.simps demo_defs flag_defs)
  show "ExpressionStatement_listener demo_services (ExpressionStatement (callOf ''c'' (0, 3))) []
     = Some [requireErrorCheck (ExpressionStatement (callOf ''c'' (0, 3)))]"
    by (simp add: callOf_def listener_eq standalone_call demo_resolve m)
  show "isErrorOrSubclass_parts demo_checker [TNull, TError, TCoded] [] = (True, [TNull, TError])"
    "isErrorOrSubclass_parts demo_checker [TNull, TError] [] = (True, [TNull, TError])"
    by (simp_all add: isErrorInterfaceOrBase.simps demo_defs flag_defs)
qed

theorem error_or_union_reported_witness:
  "leaf demo_checker TError \<and> \<not> discarded demo_checker TError
   \<and> namedError demo_checker (getApparentType demo_checker TError)
   \<and> ExpressionStatement_listener demo_services (ExpressionStatement (callOf ''n'' (0, 3))) []
       = Some [requireErrorCheck (ExpressionStatement (callOf ''n'' (0, 3)))]
   \<and> isUnion (typeAt demo_checker TErrorOrTrue)
   \<and> types (typeAt demo_checker TErrorOrTrue) = [TError, TTrue]
   \<and> leaf demo_checker TError \<and> leaf demo_checker TTrue
   \<and> TError \<in> set (types (typeAt demo_checker TErrorOrTrue))
   \<and> flattenTypes demo_checker TErrorOrTrue = Some [TError, TTrue]
   \<and> ExpressionStatement_listener demo_services (ExpressionStatement (callOf ''f'' (0, 3))) []
       = Some [requireErrorCheck (ExpressionStatement (callOf ''f'' (0, 3)))]
   \<and> flattensTo demo_checker TCodedErrorOrNull [TNull, TError, TCoded]
   \<and> TError \<in> set [TNull, TError, TCoded]
   \<and> flattenTypes demo_checker TCodedErrorOrNull = Some [TNull, TError, TCoded]
   \<and> isErrorOrSubclass demo_checker TCodedErrorOrNull = Some True
   \<and> ExpressionStatement_listener demo_services (ExpressionStatement (callOf ''c'' (0, 3))) []
       = Some [requireErrorCheck (ExpressionStatement (callOf ''c'' (0, 3)))]
   \<and> walkPart demo_checker TError
   \<and> isErrorOrSubclass_parts demo_checker [TNull, TError, TCoded] [] = (True, [TNull, TError])"
proof -
  have n: "getTypeAtLocation demo_checker
             (esTreeNodeToTSNodeMap demo_services (CallExpression (0, 3) (Identifier ''n'') [])) = TError"
    and f: "getTypeAtLocation demo_checker
             (esTreeNodeToTSNodeMap demo_services (CallExpression (0, 3) (Identifier ''f'') []))
              = TErrorOrTrue"
    and c: "getTypeAtLocation demo_checker
             (esTreeNodeToTSNodeMap demo_services (CallExpression (0, 3) (Identifier ''c'') []))
              = TCodedErrorOrNull"
    by (simp_all add: demo_resolve)
  show ?thesis
    using error_or_union_reported[where reports = "[]" and e = TError and parts = "[TError]"
          and t = TError and pre = "[]" and post = "[TTrue]" and log = "[]",
          OF demo_resolve(1)[symmetric] n refl]
      error_or_union_reported[where reports = "[]" and e = TError and parts = "[TError, TTrue]"
          and t = TError and pre = "[]" and post = "[TTrue]" and log = "[]",
          OF demo_resolve(1)[symmetric] f refl]
      error_or_union_reported[where reports = "[]" and e = TError
          and parts = "[TNull, TError, TCoded]"
          and t = TError and pre = "[TNull]" and post = "[TCoded]" and log = "[]",
          OF demo_resolve(1)[symmetric] c refl]
    by (simp add: demo_notions demo_types demo_flattens demo_flatten demo_more callOf_def
        del: isErrorOrSubclass_parts.simps)
qed

subsection \<open>Subclasses\<close>

lemma chain_walk:
  fixes checker :: "('n, 'h::finite) checker"
  assumes "baseChain checker (getApparentType checker t # b # rest)"
    and "namedError checker (last (b # rest))"
  shows "walkPart checker t"
  using walk_complete[of checker "getApparentType checker t # b # rest"
      "getApparentType checker t" "[]"] assms
  by (simp add: walkPart_def)

text \<open>
  C4, as the code has it. When a part of the call's type is not any, unknown or never, and
  a declared base-type chain leads from its apparent type, which is not itself called
  \<^verbatim>\<open>Error\<close>, to a type called \<^verbatim>\<open>Error\<close>, every type of the chain but the last being an
  object type flagged as class or interface, the bare call statement is reported: for a
  type that is its own single part, for a union of such types, and for any finite nesting
  that has the part among its parts. The walk of a part succeeds exactly when such a chain
  (of any length) exists. The base types of a type not so flagged are not searched: its
  walk answers whether its own symbol is called \<^verbatim>\<open>Error\<close>.
\<close>

theorem subclass_reported:
  fixes services :: "('n, 'h::finite) services"
  assumes "checker = getTypeChecker services"
    and "getTypeAtLocation checker (esTreeNodeToTSNodeMap services (CallExpression r f args)) = ty"
    and "stmt = ExpressionStatement (CallExpression r f args)"
  shows
  "(leaf checker ty \<and> \<not> discarded checker ty
      \<and> \<not> namedError checker (getApparentType checker ty)
      \<and> baseChain checker (getApparentType checker ty # b # rest)
      \<and> namedError checker (last (b # rest))
      \<longrightarrow> ExpressionStatement_listener services stmt reports
            = Some (reports @ [requireErrorCheck stmt]))
   \<and> (isUnion (typeAt checker ty) \<and> (\<forall>m \<in> set (types (typeAt checker ty)). leaf checker m)
      \<and> t \<in> set (types (typeAt checker ty)) \<and> \<not> discarded checker t
      \<and> \<not> namedError checker (getApparentType checker t)
      \<and> baseChain checker (getApparentType checker t # b # rest)
      \<and> namedError checker (last (b # rest))
      \<longrightarrow> ExpressionStatement_listener services stmt reports
            = Some (reports @ [requireErrorCheck stmt]))
   \<and> (flattensTo checker ty parts \<and> t \<in> set parts \<and> \<not> discarded checker t
      \<and> \<not> namedError checker (getApparentType checker t)
      \<and> baseChain checker (getApparentType checker t # b # rest)
      \<and> namedError checker (last (b # rest))
      \<longrightarrow> isErrorOrSubclass checker ty = Some True
          \<and> ExpressionStatement_listener services stmt reports
              = Some (reports @ [requireErrorCheck stmt]))
   \<and> walkPart checker t =
       (\<exists>path. baseChain checker path \<and> hd path = getApparentType checker t
               \<and> namedError checker (last path))
   \<and> (\<not> classOrInterface checker (getApparentType checker t)
      \<longrightarrow> walkPart checker t = namedError checker (getApparentType checker t))"
proof -
  have matched: "isErrorOrSubclass checker ty = Some True"
    if "flattensTo checker ty ps" and "u \<in> set ps" and "\<not> discarded checker u"
      and "baseChain checker (getApparentType checker u # b # rest)"
      and "namedError checker (last (b # rest))" for ps u
    using matcher_returns(2)[OF that(1)] that(2,3) chain_walk[OF that(4,5)] by auto
  have reported: "ExpressionStatement_listener services stmt reports
                    = Some (reports @ [requireErrorCheck stmt])"
    if "isErrorOrSubclass checker ty = Some True"
    using report_call[of services r f args True reports] that assms by simp
  show ?thesis
  proof (intro conjI impI)
    assume a: "leaf checker ty \<and> \<not> discarded checker ty
      \<and> \<not> namedError checker (getApparentType checker ty)
      \<and> baseChain checker (getApparentType checker ty # b # rest)
      \<and> namedError checker (last (b # rest))"
    then have "flattensTo checker ty [ty]" by (simp add: flattensTo_flattensAllTo.other)
    then show "ExpressionStatement_listener services stmt reports
            = Some (reports @ [requireErrorCheck stmt])"
      using matched[of "[ty]" ty] a reported by simp
  next
    assume a: "isUnion (typeAt checker ty) \<and> (\<forall>m \<in> set (types (typeAt checker ty)). leaf checker m)
      \<and> t \<in> set (types (typeAt checker ty)) \<and> \<not> discarded checker t
      \<and> \<not> namedError checker (getApparentType checker t)
      \<and> baseChain checker (getApparentType checker t # b # rest)
      \<and> namedError checker (last (b # rest))"
    then have "flattensTo checker ty (types (typeAt checker ty))"
      using flattens_leaf_members[of checker ty] by simp
    then show "ExpressionStatement_listener services stmt reports
            = Some (reports @ [requireErrorCheck stmt])"
      using matched[of "types (typeAt checker ty)" t] a reported by simp
  next
    assume a: "flattensTo checker ty parts \<and> t \<in> set parts \<and> \<not> discarded checker t
      \<and> \<not> namedError checker (getApparentType checker t)
      \<and> baseChain checker (getApparentType checker t # b # rest)
      \<and> namedError checker (last (b # rest))"
    then show m: "isErrorOrSubclass checker ty = Some True"
      using matched[of parts t] by simp
    show "ExpressionStatement_listener services stmt reports
            = Some (reports @ [requireErrorCheck stmt])"
      using reported[OF m] .
  next
    show "walkPart checker t =
       (\<exists>path. baseChain checker path \<and> hd path = getApparentType checker t
               \<and> namedError checker (last path))"
      unfolding walkPart_def
      using walk_complete[of checker _ "getApparentType checker t" "[]"]
        walk_sound(1)[of checker "getApparentType checker t" "{}" "[]"]
      by blast
  next
    assume "\<not> classOrInterface checker (getApparentType checker t)"
    then show "walkPart checker t = namedError checker (getApparentType checker t)"
      by (simp add: walkPart_def walk_step)
  qed
qed

theorem subclass_reported_witness:
  "leaf demo_checker TMyError \<and> \<not> discarded demo_checker TMyError
   \<and> \<not> namedError demo_checker (getApparentType demo_checker TMyError)
   \<and> baseChain demo_checker [getApparentType demo_checker TMyError, TError]
   \<and> namedError demo_checker (last [TError])
   \<and> isUnion (typeAt demo_checker TMyErrorOrNull)
   \<and> types (typeAt demo_checker TMyErrorOrNull) = [TNull, TMyError]
   \<and> leaf demo_checker TNull \<and> leaf demo_checker TMyError
   \<and> TMyError \<in> set (types (typeAt demo_checker TMyErrorOrNull))
   \<and> ExpressionStatement_listener demo_services (ExpressionStatement (callOf ''h'' (0, 3))) []
       = Some [requireErrorCheck (ExpressionStatement (callOf ''h'' (0, 3)))]
   \<and> flattensTo demo_checker TParamMyErrorOrNull [TMyError, TNull]
   \<and> TMyError \<in> set [TMyError, TNull]
   \<and> isErrorOrSubclass demo_checker TParamMyErrorOrNull = Some True
   \<and> ExpressionStatement_listener demo_services (ExpressionStatement (callOf ''v'' (0, 3))) []
       = Some [requireErrorCheck (ExpressionStatement (callOf ''v'' (0, 3)))]
   \<and> walkPart demo_checker TMyError
   \<and> \<not> classOrInterface demo_checker (getApparentType demo_checker TGenErr)
   \<and> \<not> walkPart demo_checker TGenErr"
proof -
  have h: "getTypeAtLocation demo_checker
             (esTreeNodeToTSNodeMap demo_services (CallExpression (0, 3) (Identifier ''h'') []))
             = TMyErrorOrNull"
    and v: "getTypeAtLocation demo_checker
             (esTreeNodeToTSNodeMap demo_services (CallExpression (0, 3) (Identifier ''v'') []))
             = TParamMyErrorOrNull"
    by (simp_all add: demo_resolve)
  have g: "getApparentType demo_checker TGenErr = TGenErr"
    "\<not> classOrInterface demo_checker TGenErr" "\<not> namedError demo_checker TGenErr"
    "\<not> walkPart demo_checker TGenErr"
    by (simp_all add: classOrInterface_def namedError_def walkPart_def
        isErrorInterfaceOrBase.simps demo_defs flag_defs)
  show ?thesis
    using subclass_reported[where parts = "[TNull, TMyError]" and t = TMyError and b = TError
          and rest = "[]" and reports = "[]", OF demo_resolve(1)[symmetric] h refl]
      subclass_reported[where parts = "[TMyError, TNull]" and t = TMyError and b = TError
          and rest = "[]" and reports = "[]", OF demo_resolve(1)[symmetric] v refl]
      subclass_reported[where t = TGenErr and reports = "[]",
          OF demo_resolve(1)[symmetric] h refl]
    by (simp add: g demo_notions demo_types demo_flattens callOf_def del: baseChain.simps)
qed

text \<open>
  The claim C4 as it is written fails: \<^verbatim>\<open>GenErr<string>\<close> is a subtype of \<^verbatim>\<open>Error\<close> by class
  extension and is not called \<^verbatim>\<open>Error\<close>, yet the statement \<^verbatim>\<open>r();\<close> is not reported. The
  instantiation is flagged as a type reference, not as class or interface, so its base
  types are not searched.
\<close>

theorem generic_subclass_not_reported:
  "getTypeAtLocation demo_checker (esTreeNodeToTSNodeMap demo_services (callOf ''r'' (0, 3)))
     = TGenErr
   \<and> getApparentType demo_checker TGenErr = TGenErr
   \<and> symbol (typeAt demo_checker TGenErr) = Some ''GenErr''
   \<and> getBaseTypes demo_checker TGenErr = Some [TError]
   \<and> symbol (typeAt demo_checker TError) = Some ''Error''
   \<and> flags (typeAt demo_checker TGenErr) = TypeFlags_Object
   \<and> objectFlags (typeAt demo_checker TGenErr) = ObjectFlags_Reference
   \<and> isErrorOrSubclass demo_checker TGenErr = Some False
   \<and> ExpressionStatement_listener demo_services (ExpressionStatement (callOf ''r'' (0, 3))) []
       = Some []"
  by (simp add: demo_listener demo_matcher) (simp add: demo_defs)

subsection \<open>Type parameters\<close>

lemma not_walked_contributes_nothing:
  fixes checker :: "('n, 'h::finite) checker"
  assumes "\<not> walkPart checker t"
  shows "fst (isErrorOrSubclass_parts checker others log) =
           fst (isErrorOrSubclass_parts checker (filter (\<lambda>p. p \<noteq> t) others) log)"
  using assms parts_result[of checker others log]
    parts_result[of checker "filter (\<lambda>p. p \<noteq> t) others" log]
  by auto

text \<open>
  C6, as the code has it. A type parameter with a constraint is flattened to the parts of
  its constraint, also where it stands inside a union or an intersection, at any depth:
  a compound type is flattened member by member, and no part of the result is a union, an
  intersection or a type parameter with a constraint. A type parameter without a
  constraint is not dropped: it is itself the one part of the result, and it is among the
  parts of a compound type it is a member of. It is still never found to be an error: the
  matcher walks from its apparent type, and the apparent type the checker gives for such a
  parameter (\<^verbatim>\<open>unknown\<close>, or the empty object type) is not called \<^verbatim>\<open>Error\<close> and is no
  class or interface, so the parameter adds no match to any list of parts.
\<close>

theorem flatten_type_parameter:
  fixes checker :: "('n, 'h::finite) checker"
  shows
  "(isTypeParameter checker t \<and> getBaseConstraintOfType checker t = Some constraint
      \<longrightarrow> flattenTypes checker t = flattenTypes checker constraint)
   \<and> (isTypeParameter checker t \<and> getBaseConstraintOfType checker t = None
      \<longrightarrow> flattenTypes checker t = Some [t])
   \<and> (isUnion (typeAt checker u) \<or> isIntersection (typeAt checker u)
      \<longrightarrow> flattenTypes checker u = flatMap (flattenTypes checker) (types (typeAt checker u)))
   \<and> (flattensTo checker u parts
      \<longrightarrow> flattenTypes checker u = Some parts \<and> (\<forall>p \<in> set parts. flatPart checker p))
   \<and> ((isUnion (typeAt checker u) \<or> isIntersection (typeAt checker u))
        \<and> t \<in> set (types (typeAt checker u)) \<and> flattensTo checker u parts
        \<and> isTypeParameter checker t \<and> getBaseConstraintOfType checker t = Some constraint
      \<longrightarrow> t \<notin> set parts
          \<and> (\<exists>ps. flattenTypes checker constraint = Some ps \<and> set ps \<subseteq> set parts))
   \<and> ((isUnion (typeAt checker u) \<or> isIntersection (typeAt checker u))
        \<and> t \<in> set (types (typeAt checker u)) \<and> flattensTo checker u parts
        \<and> isTypeParameter checker t \<and> getBaseConstraintOfType checker t = None
      \<longrightarrow> t \<in> set parts)
   \<and> (isTypeParameter checker t \<and> getBaseConstraintOfType checker t = None
        \<and> \<not> namedError checker (getApparentType checker t)
        \<and> \<not> classOrInterface checker (getApparentType checker t)
      \<longrightarrow> \<not> walkPart checker t
          \<and> isErrorOrSubclass checker t = Some False
          \<and> fst (isErrorOrSubclass_parts checker others log) =
              fst (isErrorOrSubclass_parts checker (filter (\<lambda>p. p \<noteq> t) others) log))"
proof (intro conjI impI)
  assume "isTypeParameter checker t \<and> getBaseConstraintOfType checker t = Some constraint"
  then show "flattenTypes checker t = flattenTypes checker constraint"
    by (simp add: flatten_parameter)
next
  assume "isTypeParameter checker t \<and> getBaseConstraintOfType checker t = None"
  then show "flattenTypes checker t = Some [t]"
    by (simp add: flatten_parameter)
next
  assume "isUnion (typeAt checker u) \<or> isIntersection (typeAt checker u)"
  then show "flattenTypes checker u = flatMap (flattenTypes checker) (types (typeAt checker u))"
    by (rule flatten_compound)
next
  assume f: "flattensTo checker u parts"
  then show "flattenTypes checker u = Some parts" by (rule flattens_returns(1))
  show "\<forall>p \<in> set parts. flatPart checker p" by (rule flattens_parts(1)[OF f])
next
  assume a: "(isUnion (typeAt checker u) \<or> isIntersection (typeAt checker u))
        \<and> t \<in> set (types (typeAt checker u)) \<and> flattensTo checker u parts
        \<and> isTypeParameter checker t \<and> getBaseConstraintOfType checker t = Some constraint"
  then have "\<not> flatPart checker t" by (simp add: flatPart_def isTypeParameter_def)
  then show "t \<notin> set parts" using flattens_parts(1)[of checker u parts] a by blast
  from a obtain ps where "flattensTo checker t ps" "set ps \<subseteq> set parts"
    using flattens_compound_members[of checker u parts t] by blast
  then have "flattenTypes checker constraint = Some ps \<and> set ps \<subseteq> set parts"
    using a by (simp add: flattens_iff flatten_parameter)
  then show "\<exists>ps. flattenTypes checker constraint = Some ps \<and> set ps \<subseteq> set parts" by blast
next
  assume a: "(isUnion (typeAt checker u) \<or> isIntersection (typeAt checker u))
        \<and> t \<in> set (types (typeAt checker u)) \<and> flattensTo checker u parts
        \<and> isTypeParameter checker t \<and> getBaseConstraintOfType checker t = None"
  then obtain ps where "flattensTo checker t ps" "set ps \<subseteq> set parts"
    using flattens_compound_members[of checker u parts t] by blast
  then have "ps = [t]" using a by (simp add: flattens_iff flatten_parameter)
  then show "t \<in> set parts" using \<open>set ps \<subseteq> set parts\<close> by simp
next
  assume a: "isTypeParameter checker t \<and> getBaseConstraintOfType checker t = None
        \<and> \<not> namedError checker (getApparentType checker t)
        \<and> \<not> classOrInterface checker (getApparentType checker t)"
  then show w: "\<not> walkPart checker t" by (simp add: walkPart_def walk_step)
  have "flattensTo checker t [t]" using a by (simp add: flattensTo_flattensAllTo.unconstrained)
  then show "isErrorOrSubclass checker t = Some False"
    using matcher_returns(2)[of checker t "[t]"] w by simp
  show "fst (isErrorOrSubclass_parts checker others log) =
              fst (isErrorOrSubclass_parts checker (filter (\<lambda>p. p \<noteq> t) others) log)"
    by (rule not_walked_contributes_nothing[OF w])
qed

theorem flatten_type_parameter_witness:
  "isTypeParameter demo_checker TParamMyError
   \<and> getBaseConstraintOfType demo_checker TParamMyError = Some TMyError
   \<and> flattenTypes demo_checker TParamMyError = flattenTypes demo_checker TMyError
   \<and> isUnion (typeAt demo_checker TParamMyErrorOrNull)
   \<and> TParamMyError \<in> set (types (typeAt demo_checker TParamMyErrorOrNull))
   \<and> flattensTo demo_checker TParamMyErrorOrNull [TMyError, TNull]
   \<and> flattenTypes demo_checker TParamMyErrorOrNull = Some [TMyError, TNull]
   \<and> flatPart demo_checker TMyError \<and> flatPart demo_checker TNull
   \<and> TParamMyError \<notin> set [TMyError, TNull]
   \<and> flattenTypes demo_checker TMyError = Some [TMyError]
   \<and> isIntersection (typeAt demo_checker TErrorAndCoded)
   \<and> flattenTypes demo_checker TErrorAndCoded = Some [TError, TCoded]
   \<and> flattenTypes demo_checker TCodedErrorOrNull = Some [TNull, TError, TCoded]
   \<and> isTypeParameter demo_checker TParam
   \<and> getBaseConstraintOfType demo_checker TParam = None
   \<and> flattenTypes demo_checker TParam = Some [TParam]
   \<and> isUnion (typeAt demo_checker TParamOrNull)
   \<and> TParam \<in> set (types (typeAt demo_checker TParamOrNull))
   \<and> flattensTo demo_checker TParamOrNull [TParam, TNull]
   \<and> TParam \<in> set [TParam, TNull]
   \<and> \<not> namedError demo_checker (getApparentType demo_checker TParam)
   \<and> \<not> classOrInterface demo_checker (getApparentType demo_checker TParam)
   \<and> \<not> walkPart demo_checker TParam
   \<and> isErrorOrSubclass demo_checker TParam = Some False
   \<and> isErrorOrSubclass demo_checker TParamOrNull = Some False"
proof -
  have m: "flattenTypes demo_checker TMyError = Some [TMyError]"
    "isErrorOrSubclass demo_checker TParamOrNull = Some False"
    "flatPart demo_checker TMyError" "flatPart demo_checker TNull"
    by (simp_all add: isErrorOrSubclass_def isErrorOrSubclass_run_def flattenTypes.simps
        isErrorInterfaceOrBase.simps flatPart_def demo_defs flag_defs)
  note p = flatten_type_parameter[where checker = demo_checker and t = TParamMyError
      and constraint = TMyError and u = TParamMyErrorOrNull and parts = "[TMyError, TNull]"
      and others = "[]" and log = "[]"]
  note q = flatten_type_parameter[where checker = demo_checker and t = TParam
      and constraint = TMyError and u = TParamOrNull and parts = "[TParam, TNull]"
      and others = "[TParam, TNull]" and log = "[]"]
  note i = flatten_type_parameter[where checker = demo_checker and t = TParam
      and constraint = TMyError and u = TErrorAndCoded and parts = "[TError, TCoded]"
      and others = "[]" and log = "[]"]
  note n = flatten_type_parameter[where checker = demo_checker and t = TParam
      and constraint = TMyError and u = TCodedErrorOrNull and parts = "[TNull, TError, TCoded]"
      and others = "[]" and log = "[]"]
  have p1: "flattenTypes demo_checker TParamMyError = flattenTypes demo_checker TMyError"
    using p[THEN conjunct1] by (simp add: demo_types)
  have p4: "flattenTypes demo_checker TParamMyErrorOrNull = Some [TMyError, TNull]"
    "\<forall>p \<in> set [TMyError, TNull]. flatPart demo_checker p"
    using p[THEN conjunct2, THEN conjunct2, THEN conjunct2, THEN conjunct1]
    by (simp_all add: demo_flattens)
  have p5: "TParamMyError \<notin> set [TMyError, TNull]"
    using p[THEN conjunct2, THEN conjunct2, THEN conjunct2, THEN conjunct2, THEN conjunct1]
    by (simp add: demo_types demo_flattens)
  have q2: "flattenTypes demo_checker TParam = Some [TParam]"
    using q[THEN conjunct2, THEN conjunct1] by (simp add: demo_types)
  have q6: "TParam \<in> set [TParam, TNull]"
    using q[THEN conjunct2, THEN conjunct2, THEN conjunct2, THEN conjunct2, THEN conjunct2,
        THEN conjunct1]
    by (simp add: demo_types demo_flattens)
  have q7: "\<not> walkPart demo_checker TParam" "isErrorOrSubclass demo_checker TParam = Some False"
    using q[THEN conjunct2, THEN conjunct2, THEN conjunct2, THEN conjunct2, THEN conjunct2,
        THEN conjunct2]
    by (simp_all add: demo_types)
  have i4: "flattenTypes demo_checker TErrorAndCoded = Some [TError, TCoded]"
    using i[THEN conjunct2, THEN conjunct2, THEN conjunct2, THEN conjunct1]
    by (simp add: demo_flattens)
  have n4: "flattenTypes demo_checker TCodedErrorOrNull = Some [TNull, TError, TCoded]"
    using n[THEN conjunct2, THEN conjunct2, THEN conjunct2, THEN conjunct1]
    by (simp add: demo_flattens)
  show ?thesis
    using p4(2) p5 q6 by (simp add: p1 p4(1) q2 q7 i4 n4 m demo_types demo_flattens)
qed

text \<open>
  The claim C6 as it is written fails: the type parameter \<^verbatim>\<open>T\<close> of \<^verbatim>\<open>outer\<close> has no
  constraint, and \<^verbatim>\<open>flattenTypes\<close> returns it as the one part, and as a part of
  \<^verbatim>\<open>T | null\<close>.
\<close>

theorem unconstrained_parameter_is_kept:
  "truthy (flags (typeAt demo_checker TParam) AND TypeFlags_TypeParameter)
   \<and> getBaseConstraintOfType demo_checker TParam = None
   \<and> flattenTypes demo_checker TParam = Some [TParam]
   \<and> flattenTypes demo_checker TParam \<noteq> Some []
   \<and> flattenTypes demo_checker TParamOrNull = Some [TParam, TNull]"
  by (simp add: flattenTypes.simps demo_defs flag_defs)

subsection \<open>The set of visited types\<close>

lemma parts_logs:
  fixes checker :: "('n, 'h::finite) checker"
  shows "isErrorOrSubclass_parts checker parts before = (found, log) \<Longrightarrow>
           \<exists>logs. log = before @ concat logs \<and> length logs \<le> length parts
                  \<and> (\<forall>l \<in> set logs. distinct l)"
proof (induction parts arbitrary: before)
  case Nil
  then have "log = before @ concat []" by simp
  then show ?case by (intro exI[of _ "[]"]) simp
next
  case (Cons t parts)
  show ?case
  proof (cases "discarded checker t")
    case True
    then have "isErrorOrSubclass_parts checker (t # parts) before
                 = isErrorOrSubclass_parts checker parts before"
      by (auto simp: discarded_def)
    then have "isErrorOrSubclass_parts checker parts before = (found, log)"
      using Cons.prems by simp
    then obtain logs where "log = before @ concat logs" "length logs \<le> length parts"
      "\<forall>l \<in> set logs. distinct l"
      using Cons.IH by blast
    then show ?thesis by (intro exI[of _ logs]) simp
  next
    case False
    obtain r s l where e:
      "isErrorInterfaceOrBase checker (getApparentType checker t) {} before = (r, s, l)"
      by (cases "isErrorInterfaceOrBase checker (getApparentType checker t) {} before") auto
    then obtain new where n: "l = before @ new" "distinct new"
      using walk_result[OF e] by blast
    have step: "isErrorOrSubclass_parts checker (t # parts) before
            = (if r then (True, l) else isErrorOrSubclass_parts checker parts l)"
      using False e by (simp add: discarded_def)
    show ?thesis
    proof (cases r)
      case True
      then have "log = before @ concat [new]" using step Cons.prems n by simp
      then show ?thesis using n by (intro exI[of _ "[new]"]) simp
    next
      case nf: False
      then have "isErrorOrSubclass_parts checker parts l = (found, log)"
        using step Cons.prems by simp
      then obtain logs where "log = l @ concat logs" "length logs \<le> length parts"
        "\<forall>l \<in> set logs. distinct l"
        using Cons.IH by blast
      then have "log = before @ concat (new # logs) \<and> length (new # logs) \<le> length (t # parts)
                  \<and> (\<forall>l \<in> set (new # logs). distinct l)"
        using n by simp
      then show ?thesis by blast
    qed
  qed
qed

text \<open>
  C7, as the code has it. The matcher returns on a graph of base types with cycles: for
  every type whose unions, intersections and constraints are finitely nested,
  \<open>isErrorOrSubclass\<close> gives an answer, whatever the base types are. Each part is walked
  with a new set, and one walk inspects each type at most once: the types it inspects are
  pairwise different and are exactly its set at the end, so the types inspected in one
  call of \<open>isErrorOrSubclass\<close> fall into at most one such run per part. In general a walk
  inspects only types that were not in the set, each once, and adds them. A type already
  in the set is answered with false and nothing is inspected. It is per walk, not per
  call of \<open>isErrorOrSubclass\<close>, that a type is inspected at most once.
\<close>

theorem walk_inspects_once:
  fixes checker :: "('n, 'h::finite) checker"
  shows
  "(flattensTo checker ty parts
      \<longrightarrow> isErrorOrSubclass_run checker ty = Some (isErrorOrSubclass_parts checker parts [])
          \<and> isErrorOrSubclass checker ty
              = Some (\<exists>t \<in> set parts. \<not> discarded checker t \<and> walkPart checker t))
   \<and> (isErrorOrSubclass_run checker ty = Some (answer, inspected)
      \<longrightarrow> (\<exists>logs. inspected = concat logs \<and> (\<forall>l \<in> set logs. distinct l)
                  \<and> (\<forall>parts. flattensTo checker ty parts \<longrightarrow> length logs \<le> length parts)))
   \<and> (isErrorInterfaceOrBase checker t {} [] = (found, seen, log)
      \<longrightarrow> distinct log \<and> set log = seen)
   \<and> (isErrorInterfaceOrBase checker t seenBefore logBefore = (found, seen, log)
      \<longrightarrow> (\<exists>new. log = logBefore @ new \<and> distinct new \<and> set new \<inter> seenBefore = {}
                 \<and> seen = seenBefore \<union> set new))
   \<and> (t \<in> seenBefore
      \<longrightarrow> isErrorInterfaceOrBase checker t seenBefore logBefore = (False, seenBefore, logBefore))"
proof (intro conjI impI)
  assume f: "flattensTo checker ty parts"
  show "isErrorOrSubclass_run checker ty = Some (isErrorOrSubclass_parts checker parts [])"
    by (rule matcher_returns(1)[OF f])
  show "isErrorOrSubclass checker ty
              = Some (\<exists>t \<in> set parts. \<not> discarded checker t \<and> walkPart checker t)"
    by (rule matcher_returns(2)[OF f])
next
  assume r: "isErrorOrSubclass_run checker ty = Some (answer, inspected)"
  then obtain ps where p: "flattenTypes checker ty = Some ps"
    and q: "isErrorOrSubclass_parts checker ps [] = (answer, inspected)"
    by (auto simp: isErrorOrSubclass_run_def bind_eq_Some_conv)
  obtain logs where l: "inspected = concat logs" "length logs \<le> length ps"
    "\<forall>l \<in> set logs. distinct l"
    using parts_logs[OF q] by auto
  have "length logs \<le> length parts" if "flattensTo checker ty parts" for parts
    using that p l(2) by (simp add: flattens_iff)
  then show "\<exists>logs. inspected = concat logs \<and> (\<forall>l \<in> set logs. distinct l)
                  \<and> (\<forall>parts. flattensTo checker ty parts \<longrightarrow> length logs \<le> length parts)"
    using l by blast
next
  assume a: "isErrorInterfaceOrBase checker t {} [] = (found, seen, log)"
  show "distinct log" using walk_result[OF a] by auto
  show "set log = seen" using walk_result[OF a] by auto
next
  assume "isErrorInterfaceOrBase checker t seenBefore logBefore = (found, seen, log)"
  then show "\<exists>new. log = logBefore @ new \<and> distinct new \<and> set new \<inter> seenBefore = {}
                 \<and> seen = seenBefore \<union> set new"
    using walk_result[of checker t seenBefore logBefore found seen log] by auto
next
  assume "t \<in> seenBefore"
  then show "isErrorInterfaceOrBase checker t seenBefore logBefore = (False, seenBefore, logBefore)"
    by (simp add: walk_step)
qed

lemma demo_runs:
  "isErrorOrSubclass_run demo_checker TI1 = Some (False, [TI1, TI2])"
  "isErrorOrSubclass_run demo_checker TAorB = Some (False, [TA, TBase, TB, TBase])"
  "isErrorOrSubclass_parts demo_checker [TI1] [] = (False, [TI1, TI2])"
  "isErrorOrSubclass demo_checker TI1 = Some False"
  by (simp_all add: isErrorOrSubclass_def isErrorOrSubclass_run_def flattenTypes.simps
      isErrorInterfaceOrBase.simps demo_defs flag_defs)

theorem walk_inspects_once_witness:
  "getBaseTypes demo_checker TI1 = Some [TI2] \<and> getBaseTypes demo_checker TI2 = Some [TI1]
   \<and> flattensTo demo_checker TI1 [TI1]
   \<and> isErrorOrSubclass_run demo_checker TI1 = Some (False, [TI1, TI2])
   \<and> isErrorOrSubclass demo_checker TI1 = Some False
   \<and> isErrorOrSubclass_run demo_checker TAorB = Some (False, [TA, TBase, TB, TBase])
   \<and> [TA, TBase, TB, TBase] = concat [[TA, TBase], [TB, TBase]]
   \<and> distinct [TA, TBase] \<and> distinct [TB, TBase]
   \<and> isErrorInterfaceOrBase demo_checker TI1 {} [] = (False, {TI1, TI2}, [TI1, TI2])
   \<and> distinct [TI1, TI2] \<and> set [TI1, TI2] = {TI1, TI2}
   \<and> isErrorInterfaceOrBase demo_checker TI1 {TI2} [TI2] = (False, {TI1, TI2}, [TI2, TI1])
   \<and> (\<exists>new. [TI2, TI1] = [TI2] @ new \<and> distinct new \<and> set new \<inter> {TI2} = {}
             \<and> {TI1, TI2} = {TI2} \<union> set new)
   \<and> TI2 \<in> {TI1, TI2}
   \<and> isErrorInterfaceOrBase demo_checker TI2 {TI1, TI2} [TI1, TI2] = (False, {TI1, TI2}, [TI1, TI2])"
proof -
  have b: "getBaseTypes demo_checker TI1 = Some [TI2]" "getBaseTypes demo_checker TI2 = Some [TI1]"
    by (simp_all add: demo_defs)
  show ?thesis
    using walk_inspects_once[where checker = demo_checker and ty = TI1 and parts = "[TI1]"
        and answer = False and inspected = "[TI1, TI2]"
        and t = TI1 and found = False and seen = "{TI1, TI2}" and log = "[TI1, TI2]"]
      walk_inspects_once[where checker = demo_checker and ty = TAorB and parts = "[TA, TB]"
        and answer = False and inspected = "[TA, TBase, TB, TBase]"
        and t = TI1 and seenBefore = "{TI2}" and logBefore = "[TI2]" and found = False
        and seen = "{TI1, TI2}" and log = "[TI2, TI1]"]
      walk_inspects_once[where checker = demo_checker and t = TI2 and seenBefore = "{TI1, TI2}"
        and logBefore = "[TI1, TI2]"]
    by (simp add: b demo_walks demo_runs demo_flattens del: isErrorOrSubclass_parts.simps)
qed

text \<open>
  The claim C7 as it is written fails: in the one call of \<^verbatim>\<open>isErrorOrSubclass\<close> on
  \<^verbatim>\<open>A | B\<close> the class \<^verbatim>\<open>Base\<close> is inspected twice, once in the walk of \<^verbatim>\<open>A\<close> and once in
  the walk of \<^verbatim>\<open>B\<close>.
\<close>

theorem base_inspected_twice:
  "isErrorOrSubclass_run demo_checker TAorB = Some (False, [TA, TBase, TB, TBase])
   \<and> \<not> distinct [TA, TBase, TB, TBase]"
  by (simp add: isErrorOrSubclass_run_def flattenTypes.simps isErrorInterfaceOrBase.simps
      demo_defs flag_defs)

end
